theory Spec2Isabelle
  imports Main
begin

section \<open>Strings\<close>

text \<open>
  Python strings are modelled as \<open>string\<close> (lists of 8-bit characters). The only string
  operations the router uses on extensions are \<^verbatim>\<open>str.lower()\<close> and \<^verbatim>\<open>str.lstrip(".")\<close>.
  \<open>str_lower\<close> maps the letters A to Z to a to z and leaves every other character alone
  (all keys of the conversion table are lower-case ASCII letters and digits).
\<close>

definition upper_letters :: string where
  "upper_letters = ''ABCDEFGHIJKLMNOPQRSTUVWXYZ''"

definition lower_letters :: string where
  "lower_letters = ''abcdefghijklmnopqrstuvwxyz''"

definition lower_char :: "char \<Rightarrow> char" where
  "lower_char c = (case map_of (zip upper_letters lower_letters) c of Some d \<Rightarrow> d | None \<Rightarrow> c)"

definition str_lower :: "string \<Rightarrow> string" where
  "str_lower s = map lower_char s"

definition str_lstrip_dot :: "string \<Rightarrow> string" where
  "str_lstrip_dot s = dropWhile (\<lambda>c. c = CHR ''.'') s"

definition digit_char :: "nat \<Rightarrow> char" where
  "digit_char d = ''0123456789'' ! d"

text \<open>The decimal text of a loop index, as the f-string \<^verbatim>\<open>f"{i}"\<close> renders it.\<close>

fun str_nat :: "nat \<Rightarrow> string" where
  "str_nat n = (if n < 10 then [digit_char n] else str_nat (n div 10) @ [digit_char (n mod 10)])"

declare str_nat.simps [simp del]

section \<open>Exceptions\<close>

text \<open>
  Every exception of the model is an instance of Python's \<^verbatim>\<open>Exception\<close>: the ones the source
  raises itself, \<^verbatim>\<open>OSError\<close>, \<^verbatim>\<open>TypeError\<close> and \<^verbatim>\<open>IndexError\<close> from the interpreter, and
  \<open>LibraryError\<close> for any other \<^verbatim>\<open>Exception\<close> a third-party library raises.
  \<open>message\<close> is \<^verbatim>\<open>str(e)\<close>.
\<close>

datatype exn =
    RuntimeError string
  | ValueError string
  | FileNotFoundError string
  | OSError string
  | TypeError string
  | IndexError string
  | LibraryError string

fun message :: "exn \<Rightarrow> string" where
  "message (RuntimeError m) = m"
| "message (ValueError m) = m"
| "message (FileNotFoundError m) = m"
| "message (OSError m) = m"
| "message (TypeError m) = m"
| "message (IndexError m) = m"
| "message (LibraryError m) = m"

section \<open>Paths\<close>

text \<open>
  The part of \<^verbatim>\<open>pathlib\<close> that \<^verbatim>\<open>convert_file\<close> uses, for POSIX paths: a path is split at
  \<^verbatim>\<open>/\<close>, empty and \<^verbatim>\<open>.\<close> components are dropped, the name is the last component, the
  suffix is the name from its last dot on when that dot is neither the first nor the last
  character of the name.
\<close>

fun split_sep :: "string \<Rightarrow> string list" where
  "split_sep [] = [[]]"
| "split_sep (c # cs) =
     (if c = CHR ''/'' then [] # split_sep cs
      else (case split_sep cs of [] \<Rightarrow> [[c]] | p # ps \<Rightarrow> (c # p) # ps))"

definition path_parts :: "string \<Rightarrow> string list" where
  "path_parts p = filter (\<lambda>x. x \<noteq> [] \<and> x \<noteq> ''.'') (split_sep p)"

definition path_name :: "string \<Rightarrow> string" where
  "path_name p = (case rev (path_parts p) of [] \<Rightarrow> [] | n # _ \<Rightarrow> n)"

text \<open>\<^verbatim>\<open>name.rfind('.')\<close>: the index of the last dot, or -1.\<close>

definition rfind_dot :: "string \<Rightarrow> int" where
  "rfind_dot s =
     (if CHR ''.'' \<in> set s
      then int (length s) - 1 - int (length (takeWhile (\<lambda>c. c \<noteq> CHR ''.'') (rev s)))
      else - 1)"

definition path_suffix :: "string \<Rightarrow> string" where
  "path_suffix p =
     (let name = path_name p; i = rfind_dot name
      in if 0 < i \<and> i < int (length name) - 1 then drop (nat i) name else [])"

fun join_sep :: "string list \<Rightarrow> string" where
  "join_sep [] = []"
| "join_sep [x] = x"
| "join_sep (x # y # ys) = x @ ''/'' @ join_sep (y # ys)"

text \<open>
  The root of a POSIX path: exactly two leading slashes are kept, any other number of
  leading slashes is one slash. \<open>path_str\<close> is \<^verbatim>\<open>str(path)\<close> of a path given by its root and
  its components; \<open>quote\<close> is the apostrophe of \<^verbatim>\<open>repr\<close>.
\<close>

definition path_root :: "string \<Rightarrow> string" where
  "path_root p =
     (if take 2 p = ''//'' \<and> take 3 p \<noteq> ''///'' then ''//''
      else if take 1 p = ''/'' then ''/''
      else [])"

definition path_str :: "string \<Rightarrow> string list \<Rightarrow> string" where
  "path_str root parts =
     (if root = [] \<and> parts = [] then ''.'' else root @ join_sep parts)"

definition quote :: string where
  "quote = [CHR 0x27]"

text \<open>\<^verbatim>\<open>str(Path(p).with_suffix(suffix))\<close>, with the two \<^verbatim>\<open>ValueError\<close>s of \<^verbatim>\<open>with_suffix\<close>.\<close>

definition with_suffix :: "string \<Rightarrow> string \<Rightarrow> exn + string" where
  "with_suffix p suffix =
     (if CHR ''/'' \<in> set suffix \<or> (suffix \<noteq> [] \<and> hd suffix \<noteq> CHR ''.'') \<or> suffix = ''.''
      then Inl (ValueError (''Invalid suffix '' @ quote @ suffix @ quote))
      else
        (let name = path_name p in
         if name = []
         then Inl (ValueError (''PosixPath('' @ quote @ path_str (path_root p) (path_parts p) @ quote
                               @ '') has an empty name''))
         else
           (let old_suffix = path_suffix p;
                name' = (if old_suffix = [] then name @ suffix
                         else take (length name - length old_suffix) name @ suffix)
            in Inr (path_str (path_root p) (butlast (path_parts p) @ [name'])))))"

text \<open>\<^verbatim>\<open>Path(p).suffix[1:].lower()\<close>: the format of a path as \<^verbatim>\<open>convert_file\<close> reads it.\<close>

definition path_ext :: "string \<Rightarrow> string" where
  "path_ext p = str_lower (drop 1 (path_suffix p))"

text \<open>\<^verbatim>\<open>"jpg" if f == "jpeg" else f\<close>\<close>

definition jpg_of :: "string \<Rightarrow> string" where
  "jpg_of f = (if f = ''jpeg'' then ''jpg'' else f)"

section \<open>The conversion table\<close>

text \<open>
  The values of \<^verbatim>\<open>CONVERTERS\<close> are the handler functions; the three lambdas that wrap
  \<^verbatim>\<open>pdf_to_images\<close> are named after their keys. What a handler does to the file system is
  the work of an external tool or library and is a parameter of the model (\<open>external\<close>
  below).
\<close>

datatype handler =
    convert_pdf_to_docx
  | convert_docx_to_pdf
  | convert_doc_to_pdf
  | txt_to_pdf
  | md_to_pdf
  | image_to_pdf
  | lambda_pdf_png
  | lambda_pdf_jpg
  | lambda_pdf_jpeg
  | image_convert
  | media_convert

type_synonym table = "(string \<times> string) \<Rightarrow> handler option"

definition CONVERTERS_items :: "((string \<times> string) \<times> handler) list" where
  "CONVERTERS_items =
     [((''pdf'', ''docx''), convert_pdf_to_docx),
      ((''docx'', ''pdf''), convert_docx_to_pdf),
      ((''doc'', ''pdf''), convert_doc_to_pdf),
      ((''txt'', ''pdf''), txt_to_pdf),
      ((''md'', ''pdf''), md_to_pdf),
      ((''png'', ''pdf''), image_to_pdf),
      ((''jpg'', ''pdf''), image_to_pdf),
      ((''jpeg'', ''pdf''), image_to_pdf),
      ((''bmp'', ''pdf''), image_to_pdf),
      ((''webp'', ''pdf''), image_to_pdf),
      ((''pdf'', ''png''), lambda_pdf_png),
      ((''pdf'', ''jpg''), lambda_pdf_jpg),
      ((''pdf'', ''jpeg''), lambda_pdf_jpeg),
      ((''png'', ''jpg''), image_convert),
      ((''png'', ''jpeg''), image_convert),
      ((''jpg'', ''png''), image_convert),
      ((''jpeg'', ''png''), image_convert),
      ((''bmp'', ''png''), image_convert),
      ((''webp'', ''png''), image_convert),
      ((''mp4'', ''mp3''), media_convert),
      ((''wav'', ''mp3''), media_convert),
      ((''mp4'', ''wav''), media_convert)]"

definition CONVERTERS :: table where
  "CONVERTERS = map_of CONVERTERS_items"

section \<open>The two-hop chain search\<close>

definition intermediates :: "string list" where
  "intermediates = [''pdf'', ''png'', ''jpg'']"

text \<open>The \<^verbatim>\<open>for mid in intermediates\<close> loop of \<^verbatim>\<open>find_chain\<close>, over the table read at call time.\<close>

fun find_chain_from :: "table \<Rightarrow> string \<Rightarrow> string \<Rightarrow> string list \<Rightarrow> (string \<times> string) list option" where
  "find_chain_from C src dst [] = None"
| "find_chain_from C src dst (mid # rest) =
     (let src_mid = (C (src, mid) \<noteq> None \<or> (src = ''jpeg'' \<and> mid = ''jpg''));
          mid_dst = (C (mid, dst) \<noteq> None \<or> (mid = ''jpg'' \<and> dst = ''jpeg''))
      in if src_mid \<and> mid_dst then
           (let actual_src = jpg_of src;
                actual_mid = jpg_of mid;
                actual_dst = jpg_of dst
            in Some [(actual_src, actual_mid), (actual_mid, actual_dst)])
         else find_chain_from C src dst rest)"

definition find_chain :: "table \<Rightarrow> string \<Rightarrow> string \<Rightarrow> (string \<times> string) list option" where
  "find_chain C src dst = find_chain_from C src dst intermediates"

section \<open>The world the program runs in\<close>

text \<open>
  An \<open>event\<close> is one call that leaves the program: a handler of the table, a call into the
  PDF library, \<^verbatim>\<open>os.remove\<close>, \<^verbatim>\<open>print\<close>. The \<open>world\<close> holds the paths that exist
  (\<^verbatim>\<open>os.path.exists\<close>), the module's global \<^verbatim>\<open>CONVERTERS\<close> dictionary, and the events so far
  in order. The \<open>env\<close> is everything the program does not decide: whether an external call
  raises and what it does to the files, whether the operating system refuses a removal,
  whether the optional imports succeed, how many pages a PDF has. Interrupts
  (\<^verbatim>\<open>KeyboardInterrupt\<close>, not an \<^verbatim>\<open>Exception\<close>) are outside the model.
\<close>

datatype event =
    Invoke handler string string
  | Stdout string
  | PrintHelp
  | OsRemove string
  | MergerAppend string
  | MergerWrite string
  | MergerClose
  | PdfReader string
  | PageRotate nat int
  | PageCompress nat
  | PageMerge nat
  | AddPage nat
  | WriteOut string
  | MakeDirs string
  | WatermarkCanvas string
  | Doctor

record env =
  external :: "event \<Rightarrow> string set \<Rightarrow> exn option \<times> string set"
  remove_denied :: "string \<Rightarrow> bool"
  import_PdfMerger :: bool
  import_PdfReader :: bool
  import_reportlab :: bool
  num_pages :: "string \<Rightarrow> nat"

record world =
  files :: "string set"
  converters :: table
  trace :: "event list"

text \<open>One external call: the environment decides its outcome and its effect on the files.\<close>

definition call :: "env \<Rightarrow> event \<Rightarrow> world \<Rightarrow> exn option \<times> world" where
  "call env ev w =
     (let (r, fs) = external env ev (files w)
      in (r, w\<lparr>files := fs, trace := trace w @ [ev]\<rparr>))"

text \<open>External calls in sequence; the first exception ends the sequence.\<close>

fun calls :: "env \<Rightarrow> event list \<Rightarrow> world \<Rightarrow> exn option \<times> world" where
  "calls env [] w = (None, w)"
| "calls env (ev # evs) w =
     (case call env ev w of
        (Some e, w') \<Rightarrow> (Some e, w')
      | (None, w') \<Rightarrow> calls env evs w')"

definition py_print :: "string \<Rightarrow> world \<Rightarrow> world" where
  "py_print s w = w\<lparr>trace := trace w @ [Stdout s]\<rparr>"

text \<open>
  \<^verbatim>\<open>os.remove\<close>: the file is gone afterwards, or the call raises an \<^verbatim>\<open>OSError\<close> and nothing
  changes.
\<close>

definition os_remove :: "env \<Rightarrow> string \<Rightarrow> world \<Rightarrow> exn option \<times> world" where
  "os_remove env path w =
     (if path \<notin> files w then (Some (FileNotFoundError path), w)
      else if remove_denied env path then (Some (OSError path), w)
      else (None, w\<lparr>files := files w - {path}, trace := trace w @ [OsRemove path]\<rparr>))"

text \<open>\<^verbatim>\<open>safe_remove\<close>: the \<^verbatim>\<open>OSError\<close> of \<^verbatim>\<open>os.remove\<close> is caught and dropped.\<close>

definition safe_remove :: "env \<Rightarrow> string \<Rightarrow> world \<Rightarrow> world" where
  "safe_remove env path w =
     (if path \<in> files w then snd (os_remove env path w) else w)"

section \<open>The router\<close>

definition dispatch :: "env \<Rightarrow> string \<Rightarrow> string \<Rightarrow> string \<Rightarrow> string \<Rightarrow> world \<Rightarrow> exn option \<times> world" where
  "dispatch env src dst inp out w =
     (let src = str_lstrip_dot (str_lower src);
          dst = str_lstrip_dot (str_lower dst);
          src = jpg_of src;
          dst = jpg_of dst;
          key = (src, dst)
      in case converters w key of
           Some handler \<Rightarrow> call env (Invoke handler inp out) w
         | None \<Rightarrow> (Some (ValueError (''No handler for '' @ src @ '' -> '' @ dst)), w))"

text \<open>\<^verbatim>\<open>str(Path(inp).with_suffix(f".tmp_{i}.{to_fmt}"))\<close>: the temporary path of step \<open>i\<close>.\<close>

definition temp_path :: "string \<Rightarrow> nat \<Rightarrow> string \<Rightarrow> exn + string" where
  "temp_path inp i to_fmt = with_suffix inp (''.tmp_'' @ str_nat i @ ''.'' @ to_fmt)"

text \<open>
  The loop of \<^verbatim>\<open>convert_file\<close> over \<^verbatim>\<open>enumerate(chain)\<close>: \<open>n\<close> is \<^verbatim>\<open>len(chain)\<close>, \<open>i\<close> the
  index, \<open>current_input\<close> and \<open>temp_files\<close> the loop's variables. It returns the exception
  that left the loop (if any), the temporary paths registered so far and the world.
\<close>

fun chain_steps ::
  "env \<Rightarrow> string \<Rightarrow> string \<Rightarrow> nat \<Rightarrow> nat \<Rightarrow> (string \<times> string) list \<Rightarrow> string \<Rightarrow> string list \<Rightarrow> world
     \<Rightarrow> exn option \<times> string list \<times> world" where
  "chain_steps env inp out n i [] current_input temp_files w = (None, temp_files, w)"
| "chain_steps env inp out n i ((from_fmt, to_fmt) # chain) current_input temp_files w =
     (if i = n - 1 then
        (case dispatch env from_fmt to_fmt current_input out w of
           (Some e, w') \<Rightarrow> (Some e, temp_files, w')
         | (None, w') \<Rightarrow> chain_steps env inp out n (i + 1) chain out temp_files w')
      else
        (case temp_path inp i to_fmt of
           Inl e \<Rightarrow> (Some e, temp_files, w)
         | Inr temp \<Rightarrow>
             (case dispatch env from_fmt to_fmt current_input temp w of
                (Some e, w') \<Rightarrow> (Some e, temp_files @ [temp], w')
              | (None, w') \<Rightarrow> chain_steps env inp out n (i + 1) chain temp (temp_files @ [temp]) w')))"

text \<open>The bytes of the line break and the cross mark that start the error line.\<close>

definition error_prefix :: string where
  "error_prefix = [CHR 0x0A, CHR 0xE2, CHR 0x9D, CHR 0x8C] @ '' Error: ''"

definition convert_file :: "env \<Rightarrow> string \<Rightarrow> string \<Rightarrow> world \<Rightarrow> bool \<times> world" where
  "convert_file env inp out w =
     (let src = path_ext inp;
          dst = path_ext out;
          src_norm = jpg_of src;
          dst_norm = jpg_of dst;
          (r, w') =
            (if converters w (src_norm, dst_norm) \<noteq> None then dispatch env src dst inp out w
             else
               (case find_chain (converters w) src_norm dst_norm of
                  Some (step # steps) \<Rightarrow>
                    (case chain_steps env inp out (length (step # steps)) 0 (step # steps) inp [] w of
                       (None, temp_files, w1) \<Rightarrow> (None, fold (safe_remove env) temp_files w1)
                     | (Some e, temp_files, w1) \<Rightarrow> (Some e, fold (safe_remove env) temp_files w1))
                | _ \<Rightarrow> (Some (ValueError (''Unsupported conversion: '' @ src @ '' -> '' @ dst)), w)))
      in case r of
           None \<Rightarrow> (True, w')
         | Some e \<Rightarrow> (False, py_print (error_prefix @ message e) w'))"

section \<open>PDF operations\<close>

text \<open>
  The input and output arguments of the single-file operations are \<open>string option\<close>: in
  direct-argument mode they are \<^verbatim>\<open>args.input\<close> and \<^verbatim>\<open>args.output\<close>, which are \<^verbatim>\<open>None\<close> when
  the positional argument is absent. \<^verbatim>\<open>os.path.exists(None)\<close> and \<^verbatim>\<open>open(None, "wb")\<close> raise
  \<^verbatim>\<open>TypeError\<close>. Each call into the PDF library is an external call.
\<close>

definition pypdf_missing :: exn where
  "pypdf_missing = RuntimeError ''pypdf not installed. Run: pip install pypdf''"

definition reportlab_missing :: exn where
  "reportlab_missing = RuntimeError ''reportlab not installed. Run: pip install reportlab''"

definition exists_none :: exn where
  "exists_none = TypeError ''stat: path should be string, bytes, os.PathLike or integer, not NoneType''"

definition open_none :: exn where
  "open_none = TypeError ''expected str, bytes or os.PathLike object, not NoneType''"

text \<open>\<^verbatim>\<open>with open(out, "wb") as f: writer.write(f)\<close>\<close>

definition write_out :: "env \<Rightarrow> string option \<Rightarrow> world \<Rightarrow> exn option \<times> world" where
  "write_out env out w =
     (case out of
        None \<Rightarrow> (Some open_none, w)
      | Some p \<Rightarrow> call env (WriteOut p) w)"

text \<open>The \<^verbatim>\<open>for f in inputs\<close> loop of \<^verbatim>\<open>merge_pdfs\<close>.\<close>

fun merge_loop :: "env \<Rightarrow> string list \<Rightarrow> world \<Rightarrow> exn option \<times> world" where
  "merge_loop env [] w = (None, w)"
| "merge_loop env (f # fs) w =
     (if f \<notin> files w then (Some (FileNotFoundError (''File not found: '' @ f)), w)
      else
        (case call env (MergerAppend f) w of
           (Some e, w') \<Rightarrow> (Some e, w')
         | (None, w') \<Rightarrow> merge_loop env fs w'))"

definition merge_pdfs :: "env \<Rightarrow> string list \<Rightarrow> string \<Rightarrow> world \<Rightarrow> exn option \<times> world" where
  "merge_pdfs env inputs out w =
     (if \<not> import_PdfMerger env then (Some pypdf_missing, w)
      else if length inputs < 2 then (Some (ValueError ''Need at least 2 files to merge''), w)
      else
        (let (r, w1) =
               (case merge_loop env inputs w of
                  (Some e, w') \<Rightarrow> (Some e, w')
                | (None, w') \<Rightarrow> call env (MergerWrite out) w');
             (c, w2) = call env MergerClose w1
         in case c of Some e \<Rightarrow> (Some e, w2) | None \<Rightarrow> (r, w2)))"

text \<open>\<^verbatim>\<open>os.path.join(outdir, name)\<close> for a relative \<open>name\<close>, and \<^verbatim>\<open>f"{k:03d}"\<close>.\<close>

definition os_path_join :: "string \<Rightarrow> string \<Rightarrow> string" where
  "os_path_join dir name =
     (if dir = [] then name
      else if last dir = CHR ''/'' then dir @ name
      else dir @ ''/'' @ name)"

definition pad3 :: "nat \<Rightarrow> string" where
  "pad3 k = replicate (3 - length (str_nat k)) (CHR ''0'') @ str_nat k"

definition check_mark :: string where
  "check_mark = [CHR 0xE2, CHR 0x9C, CHR 0x85]"

definition split_pdf :: "env \<Rightarrow> string option \<Rightarrow> string \<Rightarrow> world \<Rightarrow> exn option \<times> world" where
  "split_pdf env inp outdir w =
     (if \<not> import_PdfReader env then (Some pypdf_missing, w)
      else
        (case inp of
           None \<Rightarrow> (Some exists_none, w)
         | Some f \<Rightarrow>
             if f \<notin> files w then (Some (FileNotFoundError (''File not found: '' @ f)), w)
             else
               (case calls env
                       ([MakeDirs outdir, PdfReader f] @
                        concat (map (\<lambda>i. [AddPage i,
                                           WriteOut (os_path_join outdir (''page_'' @ pad3 (i + 1) @ ''.pdf''))])
                                    [0..<num_pages env f])) w of
                  (Some e, w') \<Rightarrow> (Some e, w')
                | (None, w') \<Rightarrow>
                    (None, py_print (check_mark @ '' Split into '' @ str_nat (num_pages env f)
                                       @ '' pages in '' @ outdir) w'))))"

definition compress_pdf :: "env \<Rightarrow> string option \<Rightarrow> string option \<Rightarrow> world \<Rightarrow> exn option \<times> world" where
  "compress_pdf env inp out w =
     (if \<not> import_PdfReader env then (Some pypdf_missing, w)
      else
        (case inp of
           None \<Rightarrow> (Some exists_none, w)
         | Some f \<Rightarrow>
             if f \<notin> files w then (Some (FileNotFoundError (''File not found: '' @ f)), w)
             else
               (case calls env
                       (PdfReader f #
                        concat (map (\<lambda>k. [PageCompress k, AddPage k]) [0..<num_pages env f])) w of
                  (Some e, w') \<Rightarrow> (Some e, w')
                | (None, w') \<Rightarrow> write_out env out w')))"

text \<open>The two statements of \<^verbatim>\<open>rotate_pdf\<close> that normalise the angle.\<close>

definition rotate_angle :: "int \<Rightarrow> int" where
  "rotate_angle deg =
     (let deg = ((deg mod 360) div 90) * 90
      in if deg < 0 then deg + 360 else deg)"

definition rotate_pdf :: "env \<Rightarrow> string option \<Rightarrow> string option \<Rightarrow> int \<Rightarrow> world \<Rightarrow> exn option \<times> world" where
  "rotate_pdf env inp out deg w =
     (if \<not> import_PdfReader env then (Some pypdf_missing, w)
      else
        (case inp of
           None \<Rightarrow> (Some exists_none, w)
         | Some f \<Rightarrow>
             if f \<notin> files w then (Some (FileNotFoundError (''File not found: '' @ f)), w)
             else
               (let deg = rotate_angle deg in
                case calls env
                       (PdfReader f #
                        concat (map (\<lambda>k. [PageRotate k deg, AddPage k]) [0..<num_pages env f])) w of
                  (Some e, w') \<Rightarrow> (Some e, w')
                | (None, w') \<Rightarrow> write_out env out w')))"

definition watermark_pdf :: "env \<Rightarrow> string option \<Rightarrow> string option \<Rightarrow> string \<Rightarrow> world \<Rightarrow> exn option \<times> world" where
  "watermark_pdf env inp out text w =
     (if \<not> import_PdfReader env then (Some pypdf_missing, w)
      else if \<not> import_reportlab env then (Some reportlab_missing, w)
      else
        (case inp of
           None \<Rightarrow> (Some exists_none, w)
         | Some f \<Rightarrow>
             if f \<notin> files w then (Some (FileNotFoundError (''File not found: '' @ f)), w)
             else
               (case calls env
                       ([WatermarkCanvas text, PdfReader f] @
                        concat (map (\<lambda>k. [PageMerge k, AddPage k]) [0..<num_pages env f])) w of
                  (Some e, w') \<Rightarrow> (Some e, w')
                | (None, w') \<Rightarrow> write_out env out w')))"

section \<open>Direct-argument mode\<close>

text \<open>
  \<open>args\<close> is the namespace \<^verbatim>\<open>parser.parse_args()\<close> returns and \<open>argv\<close> is \<^verbatim>\<open>sys.argv\<close>. An
  \<open>outcome\<close> is how \<^verbatim>\<open>cli_mode\<close> ends: it returns, it calls \<^verbatim>\<open>sys.exit\<close>, or an exception
  leaves it uncaught (the interpreter then prints a traceback and exits with status 1).
\<close>

record args =
  arg_input :: "string option"
  arg_output :: "string option"
  arg_merge :: bool
  arg_split :: bool
  arg_compress :: bool
  arg_rotate :: "int option"
  arg_watermark :: "string option"
  arg_batch :: bool
  arg_doctor :: bool
  arg_cli :: bool

datatype outcome = Returned | SysExit int | Uncaught exn

fun exit_code :: "outcome \<Rightarrow> int" where
  "exit_code Returned = 0"
| "exit_code (SysExit n) = n"
| "exit_code (Uncaught e) = 1"

text \<open>A call that is a statement of \<^verbatim>\<open>cli_mode\<close>, followed by \<^verbatim>\<open>return\<close>.\<close>

definition then_return :: "exn option \<times> world \<Rightarrow> outcome \<times> world" where
  "then_return rw = (case rw of (None, w) \<Rightarrow> (Returned, w) | (Some e, w) \<Rightarrow> (Uncaught e, w))"

text \<open>Python's truth value of an optional string and of an optional integer.\<close>

definition truthy_str :: "string option \<Rightarrow> bool" where
  "truthy_str s = (case s of None \<Rightarrow> False | Some t \<Rightarrow> t \<noteq> [])"

definition truthy_int :: "int option \<Rightarrow> bool" where
  "truthy_int n = (case n of None \<Rightarrow> False | Some k \<Rightarrow> k \<noteq> 0)"

definition cli_mode :: "env \<Rightarrow> string list \<Rightarrow> args \<Rightarrow> world \<Rightarrow> outcome \<times> world" where
  "cli_mode env argv args w =
     (if arg_doctor args then then_return (call env Doctor w)
      else if arg_merge args then
        (let inputs = butlast (drop 2 argv) in
         if argv = [] then (Uncaught (IndexError ''list index out of range''), w)
         else
           (let output = last argv in
            case merge_pdfs env inputs output w of
              (Some e, w') \<Rightarrow> (Uncaught e, w')
            | (None, w') \<Rightarrow>
                (Returned, py_print (''Merged '' @ str_nat (length inputs) @ '' files into '' @ output) w')))
      else if arg_split args then
        then_return (split_pdf env (arg_input args)
                       (if truthy_str (arg_output args) then (case arg_output args of Some d \<Rightarrow> d | None \<Rightarrow> [])
                        else ''pages'') w)
      else if arg_compress args then
        then_return (compress_pdf env (arg_input args) (arg_output args) w)
      else if truthy_int (arg_rotate args) then
        then_return (rotate_pdf env (arg_input args) (arg_output args)
                       (case arg_rotate args of Some d \<Rightarrow> d | None \<Rightarrow> 0) w)
      else if truthy_str (arg_watermark args) then
        then_return (watermark_pdf env (arg_input args) (arg_output args)
                       (case arg_watermark args of Some t \<Rightarrow> t | None \<Rightarrow> []) w)
      else if \<not> truthy_str (arg_input args) \<or> \<not> truthy_str (arg_output args) then
        (Returned, w\<lparr>trace := trace w @ [PrintHelp]\<rparr>)
      else
        (case (arg_input args, arg_output args) of
           (Some inp, Some out) \<Rightarrow>
             (case convert_file env inp out w of
                (True, w') \<Rightarrow> (Returned, py_print ''Done.'' w')
              | (False, w') \<Rightarrow> (SysExit 1, w'))
         | _ \<Rightarrow> (Returned, w\<lparr>trace := trace w @ [PrintHelp]\<rparr>)))"

section \<open>The program as a sequence of operations\<close>

text \<open>
  The module is initialised once: the table is built and nothing has happened yet. After
  that the menus and the argument mode run the operations below, in any order and any
  number of times; \<open>Interact\<close> stands for any other exchange with the outside (a prompt, a
  screen, the dependency check).
\<close>

definition initial_world :: "string set \<Rightarrow> world" where
  "initial_world fs = \<lparr>files = fs, converters = CONVERTERS, trace = []\<rparr>"

datatype operation =
    Convert string string
  | Dispatch string string string string
  | Merge "string list" string
  | Split "string option" string
  | Compress "string option" "string option"
  | Rotate "string option" "string option" int
  | Watermark "string option" "string option" string
  | SafeRemove string
  | Cli "string list" args
  | Interact event

fun perform :: "env \<Rightarrow> operation \<Rightarrow> world \<Rightarrow> world" where
  "perform env (Convert inp out) w = snd (convert_file env inp out w)"
| "perform env (Dispatch src dst inp out) w = snd (dispatch env src dst inp out w)"
| "perform env (Merge inputs out) w = snd (merge_pdfs env inputs out w)"
| "perform env (Split inp outdir) w = snd (split_pdf env inp outdir w)"
| "perform env (Compress inp out) w = snd (compress_pdf env inp out w)"
| "perform env (Rotate inp out deg) w = snd (rotate_pdf env inp out deg w)"
| "perform env (Watermark inp out text) w = snd (watermark_pdf env inp out text w)"
| "perform env (SafeRemove path) w = safe_remove env path w"
| "perform env (Cli argv args) w = snd (cli_mode env argv args w)"
| "perform env (Interact ev) w = snd (call env ev w)"

definition run_program :: "env \<Rightarrow> operation list \<Rightarrow> string set \<Rightarrow> world" where
  "run_program env ops fs = fold (perform env) ops (initial_world fs)"

section \<open>Reading a run\<close>

text \<open>
  The events a run added to the world it started in, and the handlers among them, in the
  order of their invocation. \<open>normalize_ext\<close> is the normalisation of an extension as the
  specification words it: lower case, leading dots stripped, jpeg read as jpg.
\<close>

definition new_events :: "world \<Rightarrow> world \<Rightarrow> event list" where
  "new_events w w' = drop (length (trace w)) (trace w')"


text \<open>The angles passed to \<^verbatim>\<open>page.rotate\<close>, and the paths passed to \<^verbatim>\<open>merger.write\<close>.\<close>

fun rotations :: "event list \<Rightarrow> int list" where
  "rotations [] = []"
| "rotations (PageRotate k a # evs) = a # rotations evs"
| "rotations (ev # evs) = rotations evs"

fun writes :: "event list \<Rightarrow> string list" where
  "writes [] = []"
| "writes (MergerWrite p # evs) = p # writes evs"
| "writes (ev # evs) = writes evs"


section \<open>Concrete environments and arguments\<close>

text \<open>
  Inputs for the concrete instances below. In \<open>obliging_env\<close> every external call succeeds, a
  handler leaves its output file behind, a write creates the file, removals are allowed, the
  imports succeed and every PDF has two pages. \<open>refusing_env\<close> differs in one point: the
  operating system refuses every removal. In \<open>failing_env\<close> every handler raises; in
  \<open>second_hop_fails_env\<close> only the handler from pdf to jpg does.
  \<open>no_flags\<close> is the namespace of a command line without arguments.
\<close>

definition obliging_env :: env where
  "obliging_env =
     \<lparr>external = (\<lambda>ev fs. case ev of
                     Invoke h inp out \<Rightarrow> (None, insert out fs)
                   | WriteOut p \<Rightarrow> (None, insert p fs)
                   | MergerWrite p \<Rightarrow> (None, insert p fs)
                   | _ \<Rightarrow> (None, fs)),
      remove_denied = (\<lambda>p. False),
      import_PdfMerger = True,
      import_PdfReader = True,
      import_reportlab = True,
      num_pages = (\<lambda>p. 2)\<rparr>"

definition refusing_env :: env where
  "refusing_env = obliging_env\<lparr>remove_denied := (\<lambda>p. True)\<rparr>"

definition failing_env :: env where
  "failing_env =
     obliging_env\<lparr>external := (\<lambda>ev fs. case ev of
                     Invoke h inp out \<Rightarrow> (Some (RuntimeError ''conversion failed''), fs)
                   | _ \<Rightarrow> (None, fs))\<rparr>"

definition second_hop_fails_env :: env where
  "second_hop_fails_env =
     obliging_env\<lparr>external := (\<lambda>ev fs. case ev of
                     Invoke h inp out \<Rightarrow>
                       (if h = lambda_pdf_jpg then (Some (RuntimeError ''second hop failed''), fs)
                        else (None, insert out fs))
                   | _ \<Rightarrow> (None, fs))\<rparr>"

definition no_flags :: args where
  "no_flags =
     \<lparr>arg_input = None, arg_output = None, arg_merge = False, arg_split = False,
      arg_compress = False, arg_rotate = None, arg_watermark = None, arg_batch = False,
      arg_doctor = False, arg_cli = False\<rparr>"

section \<open>Facts about strings and paths\<close>

lemma lower_char_cases:
  "lower_char c = c \<or> (c \<in> set upper_letters \<and> lower_char c \<in> set lower_letters)"
proof (cases "map_of (zip upper_letters lower_letters) c")
  case None
  then show ?thesis by (simp add: lower_char_def)
next
  case (Some d)
  then have "(c, d) \<in> set (zip upper_letters lower_letters)"
    by (rule map_of_SomeD)
  then have "c \<in> set upper_letters" and "d \<in> set lower_letters"
    by (auto dest: set_zip_leftD set_zip_rightD)
  with Some show ?thesis by (simp add: lower_char_def)
qed

lemma lower_not_upper: "d \<in> set lower_letters \<Longrightarrow> d \<notin> set upper_letters"
  by (auto simp: lower_letters_def upper_letters_def)

lemma lower_letter_fixed: "d \<in> set lower_letters \<Longrightarrow> lower_char d = d"
proof -
  assume "d \<in> set lower_letters"
  then have "d \<notin> set upper_letters" by (rule lower_not_upper)
  moreover have "length upper_letters = length lower_letters"
    by (simp add: lower_letters_def upper_letters_def)
  ultimately have "d \<notin> fst ` set (zip upper_letters lower_letters)"
    by (metis map_fst_zip set_map)
  then have "map_of (zip upper_letters lower_letters) d = None"
    by (simp add: map_of_eq_None_iff)
  then show ?thesis by (simp add: lower_char_def)
qed

lemma lower_char_idem: "lower_char (lower_char c) = lower_char c"
  using lower_char_cases [of c] lower_letter_fixed by auto

lemma str_lower_idem: "str_lower (str_lower s) = str_lower s"
  by (simp add: str_lower_def lower_char_idem)

lemma lower_char_dot: "(lower_char c = CHR ''.'') = (c = CHR ''.'')"
proof -
  have a: "CHR ''.'' \<notin> set lower_letters" by (simp add: lower_letters_def)
  have b: "CHR ''.'' \<notin> set upper_letters" by (simp add: upper_letters_def)
  show ?thesis using lower_char_cases [of c] a b by auto
qed

lemma dot_in_str_lower: "(CHR ''.'' \<in> set (str_lower s)) = (CHR ''.'' \<in> set s)"
proof (induction s)
  case Nil
  show ?case by (simp add: str_lower_def)
next
  case (Cons c s)
  have "(CHR ''.'' = lower_char c) = (CHR ''.'' = c)"
    using lower_char_dot [of c] by auto
  with Cons show ?case by (simp add: str_lower_def)
qed

lemma takeWhile_shorter:
  assumes "x \<in> set xs" and "\<not> P x"
  shows "length (takeWhile P xs) < length xs"
  using assms by (induction xs) auto

lemma drop_after_rfind:
  assumes "CHR ''.'' \<in> set s"
  shows "drop (nat (rfind_dot s) + 1) s = rev (takeWhile (\<lambda>c. c \<noteq> CHR ''.'') (rev s))"
proof -
  let ?t = "takeWhile (\<lambda>c. c \<noteq> CHR ''.'') (rev s)"
  have "length ?t < length (rev s)"
    using assms by (intro takeWhile_shorter [where x = "CHR ''.''"]) auto
  then have lt: "length ?t < length s" by simp
  then have idx: "nat (rfind_dot s) + 1 = length s - length ?t"
    using assms by (simp add: rfind_dot_def)
  have "?t = take (length ?t) (rev s)" by (rule takeWhile_eq_take)
  then have "rev ?t = rev (take (length ?t) (rev s))" by simp
  also have "\<dots> = drop (length s - length ?t) s"
    by (simp add: rev_take)
  finally show ?thesis using idx by simp
qed

lemma path_suffix_tail_no_dot: "CHR ''.'' \<notin> set (drop 1 (path_suffix p))"
proof (cases "path_suffix p = []")
  case True
  then show ?thesis by simp
next
  case False
  let ?n = "path_name p"
  from False have i: "0 < rfind_dot ?n" and s: "path_suffix p = drop (nat (rfind_dot ?n)) ?n"
    by (auto simp: path_suffix_def Let_def split: if_splits)
  from i have dot: "CHR ''.'' \<in> set ?n" by (auto simp: rfind_dot_def split: if_splits)
  have "drop 1 (path_suffix p) = drop (nat (rfind_dot ?n) + 1) ?n"
    unfolding s by (simp add: add.commute)
  also have "\<dots> = rev (takeWhile (\<lambda>c. c \<noteq> CHR ''.'') (rev ?n))"
    using dot by (rule drop_after_rfind)
  finally have eq: "drop 1 (path_suffix p) = rev (takeWhile (\<lambda>c. c \<noteq> CHR ''.'') (rev ?n))" .
  show ?thesis unfolding eq by (auto dest: set_takeWhileD)
qed

lemma path_ext_no_dot: "CHR ''.'' \<notin> set (path_ext p)"
  unfolding path_ext_def dot_in_str_lower by (rule path_suffix_tail_no_dot)

lemma lstrip_no_dot: "CHR ''.'' \<notin> set s \<Longrightarrow> str_lstrip_dot s = s"
  by (cases s) (auto simp: str_lstrip_dot_def)

lemma path_ext_lower: "str_lower (path_ext p) = path_ext p"
  by (simp add: path_ext_def str_lower_idem)

lemma path_ext_normal: "str_lstrip_dot (str_lower (path_ext p)) = path_ext p"
  by (simp add: path_ext_lower lstrip_no_dot path_ext_no_dot)

section \<open>Facts about the router\<close>

lemma str_lower_jpg: "str_lower ''jpg'' = ''jpg''"
  by (simp add: str_lower_def lower_char_def upper_letters_def lower_letters_def)

lemma jpg_of_not_jpeg: "jpg_of f \<noteq> ''jpeg''"
  by (simp add: jpg_of_def)

lemma normal_path_ext: "jpg_of (str_lstrip_dot (str_lower (path_ext p))) = jpg_of (path_ext p)"
  by (simp add: path_ext_normal)

lemma normal_jpg_of_path_ext:
  "jpg_of (str_lstrip_dot (str_lower (jpg_of (path_ext p)))) = jpg_of (path_ext p)"
proof (cases "path_ext p = ''jpeg''")
  case True
  then show ?thesis
    by (simp add: jpg_of_def str_lower_jpg str_lstrip_dot_def)
next
  case False
  then have "jpg_of (path_ext p) = path_ext p" by (simp add: jpg_of_def)
  then show ?thesis by (simp add: path_ext_normal)
qed

lemma normal_intermediate:
  "mid \<in> set intermediates \<Longrightarrow> jpg_of (str_lstrip_dot (str_lower mid)) = mid"
  by (auto simp: intermediates_def jpg_of_def str_lstrip_dot_def str_lower_def lower_char_def
        upper_letters_def lower_letters_def)

lemma dispatch_normal:
  assumes "jpg_of (str_lstrip_dot (str_lower src)) = s"
    and "jpg_of (str_lstrip_dot (str_lower dst)) = d"
  shows "dispatch env src dst inp out w =
           (case converters w (s, d) of
              Some handler \<Rightarrow> call env (Invoke handler inp out) w
            | None \<Rightarrow> (Some (ValueError (''No handler for '' @ s @ '' -> '' @ d)), w))"
  unfolding assms [symmetric] by (simp add: dispatch_def Let_def)

lemma convert_file_direct:
  assumes "converters w (jpg_of (path_ext inp), jpg_of (path_ext out)) = Some h"
  shows "convert_file env inp out w =
           (case call env (Invoke h inp out) w of
              (None, w') \<Rightarrow> (True, w')
            | (Some e, w') \<Rightarrow> (False, py_print (error_prefix @ message e) w'))"
proof -
  have "dispatch env (path_ext inp) (path_ext out) inp out w = call env (Invoke h inp out) w"
    using assms dispatch_normal [OF normal_path_ext normal_path_ext, of env inp out inp out w]
    by simp
  then show ?thesis
    using assms by (simp add: convert_file_def Let_def split: prod.splits option.splits)
qed

lemma convert_file_unsupported:
  assumes "converters w (jpg_of (path_ext inp), jpg_of (path_ext out)) = None"
    and "find_chain (converters w) (jpg_of (path_ext inp)) (jpg_of (path_ext out)) = None"
  shows "convert_file env inp out w =
           (False, py_print (error_prefix @ ''Unsupported conversion: '' @ path_ext inp @ '' -> ''
                              @ path_ext out) w)"
  using assms by (simp add: convert_file_def Let_def)

section \<open>Facts about the chain search\<close>

lemma in_dom_iff: "(k \<in> dom C) = (C k \<noteq> None)"
  by auto

lemma find_chain_no_jpeg:
  assumes "src \<noteq> ''jpeg''" and "dst \<noteq> ''jpeg''"
  shows "find_chain C src dst =
           (case find (\<lambda>mid. (src, mid) \<in> dom C \<and> (mid, dst) \<in> dom C) [''pdf'', ''png'', ''jpg''] of
              None \<Rightarrow> None
            | Some mid \<Rightarrow> Some [(src, mid), (mid, dst)])"
  using assms by (simp add: find_chain_def intermediates_def in_dom_iff jpg_of_def Let_def)

lemma find_chain_jpeg_src:
  "find_chain CONVERTERS ''jpeg'' dst =
     (case find (\<lambda>mid. (''jpeg'', mid) \<in> dom CONVERTERS \<and> (mid, dst) \<in> dom CONVERTERS) [''pdf'', ''png'', ''jpg''] of
        None \<Rightarrow> None
      | Some mid \<Rightarrow> Some [(''jpg'', mid), (mid, jpg_of dst)])"
  by (simp add: find_chain_def intermediates_def in_dom_iff jpg_of_def Let_def CONVERTERS_def CONVERTERS_items_def)

lemma find_chain_jpeg_dst:
  assumes "src \<noteq> ''jpeg''"
  shows "find_chain CONVERTERS src ''jpeg'' =
     (case find (\<lambda>mid. (src, mid) \<in> dom CONVERTERS \<and> (mid, ''jpeg'') \<in> dom CONVERTERS) [''pdf'', ''png'', ''jpg''] of
        None \<Rightarrow> None
      | Some mid \<Rightarrow> Some [(src, mid), (mid, ''jpg'')])"
  using assms
  by (simp add: find_chain_def intermediates_def in_dom_iff jpg_of_def Let_def CONVERTERS_def CONVERTERS_items_def)

lemma find_chain_length:
  "(case find_chain C src dst of None \<Rightarrow> True | Some chain \<Rightarrow> length chain = 2)"
  by (simp add: find_chain_def intermediates_def Let_def)

section \<open>Facts about chains and temporary files\<close>

lemma find_chain_SomeD:
  assumes "find_chain C a b = Some chain" and "a \<noteq> ''jpeg''" and "b \<noteq> ''jpeg''"
  shows "\<exists>mid h1 h2. mid \<in> set intermediates \<and> chain = [(a, mid), (mid, b)]
            \<and> C (a, mid) = Some h1 \<and> C (mid, b) = Some h2"
  using assms
  by (auto simp: find_chain_def intermediates_def Let_def jpg_of_def split: if_splits)

lemma CONVERTERS_src_nonempty: "CONVERTERS (a, m) = Some h \<Longrightarrow> a \<noteq> []"
  by (auto simp: CONVERTERS_def CONVERTERS_items_def)

lemma path_name_nonempty: "path_ext p \<noteq> [] \<Longrightarrow> path_name p \<noteq> []"
  by (auto simp: path_ext_def str_lower_def path_suffix_def Let_def split: if_splits)

lemma str_nat_0: "str_nat 0 = ''0''"
  by (simp add: str_nat.simps digit_char_def)

lemma temp_path_ok:
  assumes "mid \<in> set intermediates" and "path_name inp \<noteq> []"
  shows "\<exists>temp. temp_path inp 0 mid = Inr temp"
  using assms
  by (auto simp: temp_path_def with_suffix_def str_nat_0 intermediates_def Let_def)

lemma converters_call: "converters (snd (call env ev w)) = converters w"
  by (simp add: call_def split: prod.splits)

lemma trace_call: "trace (snd (call env ev w)) = trace w @ [ev]"
  by (simp add: call_def split: prod.splits)

lemma chain_steps_two:
  assumes na: "jpg_of (str_lstrip_dot (str_lower a)) = a"
    and nm: "jpg_of (str_lstrip_dot (str_lower m)) = m"
    and nb: "jpg_of (str_lstrip_dot (str_lower b)) = b"
    and k1: "converters w (a, m) = Some h1"
    and k2: "converters w (m, b) = Some h2"
    and tmp: "temp_path inp 0 m = Inr temp"
  shows "chain_steps env inp out 2 0 [(a, m), (m, b)] inp [] w =
           (case call env (Invoke h1 inp temp) w of
              (Some e, w') \<Rightarrow> (Some e, [temp], w')
            | (None, w') \<Rightarrow>
                (case call env (Invoke h2 temp out) w' of
                   (Some e, w'') \<Rightarrow> (Some e, [temp], w'')
                 | (None, w'') \<Rightarrow> (None, [temp], w'')))"
proof -
  have d1: "dispatch env a m inp temp w = call env (Invoke h1 inp temp) w"
    using dispatch_normal [OF na nm, of env inp temp w] k1 by simp
  have d2: "dispatch env m b temp out w' = call env (Invoke h2 temp out) w'"
    if "converters w' = converters w" for w'
    using dispatch_normal [OF nm nb, of env temp out w'] k2 that by simp
  show ?thesis
  proof (cases "call env (Invoke h1 inp temp) w")
    case (Pair r w')
    have "w' = snd (call env (Invoke h1 inp temp) w)" using Pair by simp
    then have c: "converters w' = converters w" by (simp add: converters_call)
    show ?thesis
      using Pair d1 d2 [OF c] tmp
      by (simp split: option.splits prod.splits)
  qed
qed

lemma safe_remove_gone: "remove_denied env p \<or> p \<notin> files (safe_remove env p w)"
  by (simp add: safe_remove_def os_remove_def)

lemma files_py_print: "files (py_print s w) = files w"
  by (simp add: py_print_def)

lemma convert_file_chain:
  assumes "converters w (jpg_of (path_ext inp), jpg_of (path_ext out)) = None"
    and "find_chain (converters w) (jpg_of (path_ext inp)) (jpg_of (path_ext out)) = Some [s1, s2]"
    and "chain_steps env inp out 2 0 [s1, s2] inp [] w = (r, temp_files, w1)"
  shows "convert_file env inp out w =
           (case r of
              None \<Rightarrow> (True, fold (safe_remove env) temp_files w1)
            | Some e \<Rightarrow> (False, py_print (error_prefix @ message e) (fold (safe_remove env) temp_files w1)))"
  using assms
  by (simp add: convert_file_def Let_def numeral_2_eq_2 del: chain_steps.simps split: option.splits)

lemma path_ext_report_docx: "path_ext ''report.docx'' = ''docx''"
  by code_simp

lemma path_ext_report_jpg: "path_ext ''report.jpg'' = ''jpg''"
  by code_simp

lemma temp_path_report: "temp_path ''report.docx'' 0 ''pdf'' = Inr ''report.tmp_0.pdf''"
  by code_simp

lemma no_direct_docx_jpg: "CONVERTERS (''docx'', ''jpg'') = None"
  by code_simp

lemma chain_docx_jpg: "find_chain CONVERTERS ''docx'' ''jpg'' = Some [(''docx'', ''pdf''), (''pdf'', ''jpg'')]"
  by code_simp

lemma call_external:
  "call env ev w =
     (case external env ev (files w) of
        (r, fs) \<Rightarrow> (r, w\<lparr>files := fs, trace := trace w @ [ev]\<rparr>))"
  by (simp add: call_def)

section \<open>Facts about the handlers a run invokes\<close>





lemma call_cases:
  obtains r fs where "call env ev w = (r, w\<lparr>files := fs, trace := trace w @ [ev]\<rparr>)"
  by (cases "external env ev (files w)") (simp add: call_def)




section \<open>Format lookup\<close>


section \<open>Direct-argument mode\<close>

section \<open>Rotation\<close>

lemma rotate_angle_eq: "rotate_angle deg = ((deg mod 360) div 90) * 90"
proof -
  have "0 \<le> deg mod 360" by simp
  then have "0 \<le> (deg mod 360) div 90" by simp
  then have "\<not> ((deg mod 360) div 90) * 90 < 0" by simp
  then show ?thesis by (simp add: rotate_angle_def Let_def)
qed

lemma rotate_angle_range: "rotate_angle deg \<in> {0, 90, 180, 270}"
proof -
  let ?m = "deg mod 360"
  have "0 \<le> ?m" and "?m < 360" by simp_all
  then have "?m div 90 = 0 \<or> ?m div 90 = 1 \<or> ?m div 90 = 2 \<or> ?m div 90 = 3"
    by arith
  then show ?thesis unfolding rotate_angle_eq by auto
qed

lemma calls_trace_prefix: "\<exists>n. trace (snd (calls env evs w)) = trace w @ take n evs"
proof (induction evs arbitrary: w)
  case Nil
  show ?case by simp
next
  case (Cons ev evs)
  obtain r fs where c: "call env ev w = (r, w\<lparr>files := fs, trace := trace w @ [ev]\<rparr>)"
    by (rule call_cases)
  show ?case
  proof (cases r)
    case (Some e)
    then have "trace (snd (calls env (ev # evs) w)) = trace w @ take 1 (ev # evs)"
      using c by simp
    then show ?thesis by blast
  next
    case None
    let ?w = "w\<lparr>files := fs, trace := trace w @ [ev]\<rparr>"
    obtain n where "trace (snd (calls env evs ?w)) = trace ?w @ take n evs"
      using Cons.IH by blast
    then have "trace (snd (calls env (ev # evs) w)) = trace w @ take (Suc n) (ev # evs)"
      using c None by simp
    then show ?thesis by blast
  qed
qed

lemma calls_trace_all:
  "fst (calls env evs w) = None \<Longrightarrow> trace (snd (calls env evs w)) = trace w @ evs"
proof (induction evs arbitrary: w)
  case Nil
  show ?case by simp
next
  case (Cons ev evs)
  obtain r fs where c: "call env ev w = (r, w\<lparr>files := fs, trace := trace w @ [ev]\<rparr>)"
    by (rule call_cases)
  show ?case
  proof (cases r)
    case (Some e)
    then show ?thesis using c Cons.prems by simp
  next
    case None
    then show ?thesis using c Cons.prems Cons.IH [of "w\<lparr>files := fs, trace := trace w @ [ev]\<rparr>"]
      by simp
  qed
qed

lemma rotations_append: "rotations (xs @ ys) = rotations xs @ rotations ys"
proof (induction xs)
  case Nil
  show ?case by simp
next
  case (Cons ev xs)
  then show ?case by (cases ev) simp_all
qed

lemma rotations_pages:
  "rotations (concat (map (\<lambda>k. [PageRotate k a, AddPage k]) ks)) = replicate (length ks) a"
  by (induction ks) simp_all

lemma rotations_take: "set (rotations (take n evs)) \<subseteq> set (rotations evs)"
proof (induction evs arbitrary: n)
  case Nil
  show ?case by simp
next
  case (Cons ev evs)
  show ?case
  proof (cases n)
    case 0
    then show ?thesis by simp
  next
    case (Suc m)
    then show ?thesis using Cons.IH [of m] by (cases ev) auto
  qed
qed

lemma trace_write_out:
  "trace (snd (write_out env out w)) = trace w
   \<or> (\<exists>p. trace (snd (write_out env out w)) = trace w @ [WriteOut p])"
  by (cases out) (simp_all add: write_out_def trace_call)

section \<open>Merging\<close>

lemma writes_append: "writes (xs @ ys) = writes xs @ writes ys"
proof (induction xs)
  case Nil
  show ?case by simp
next
  case (Cons ev xs)
  then show ?case by (cases ev) simp_all
qed

lemma call_read_only:
  assumes "snd (external env ev (files w)) = files w"
  shows "\<exists>r. call env ev w = (r, w\<lparr>trace := trace w @ [ev]\<rparr>)"
  using assms by (cases "external env ev (files w)") (simp add: call_def)

lemma merge_loop_frame:
  assumes ro: "\<forall>f fs. snd (external env (MergerAppend f) fs) = fs"
  shows "files (snd (merge_loop env inputs w)) = files w
         \<and> (\<exists>evs. trace (snd (merge_loop env inputs w)) = trace w @ evs \<and> writes evs = [])"
proof (induction inputs arbitrary: w)
  case Nil
  show ?case by simp
next
  case (Cons f fs)
  show ?case
  proof (cases "f \<in> files w")
    case False
    then show ?thesis by simp
  next
    case True
    obtain r where c': "call env (MergerAppend f) w = (r, w\<lparr>trace := trace w @ [MergerAppend f]\<rparr>)"
      using call_read_only [of env "MergerAppend f" w] ro by blast
    let ?w = "w\<lparr>trace := trace w @ [MergerAppend f]\<rparr>"
    show ?thesis
    proof (cases r)
      case (Some e)
      then show ?thesis using True c' by simp
    next
      case None
      from Cons.IH [of ?w] obtain evs where
        "files (snd (merge_loop env fs ?w)) = files w"
        "trace (snd (merge_loop env fs ?w)) = trace w @ MergerAppend f # evs" "writes evs = []"
        by auto
      then show ?thesis using True c' None by simp
    qed
  qed
qed

lemma merge_loop_missing:
  assumes ro: "\<forall>f fs. snd (external env (MergerAppend f) fs) = fs"
    and miss: "\<not> set inputs \<subseteq> files w"
  shows "fst (merge_loop env inputs w) \<noteq> None"
  using miss
proof (induction inputs arbitrary: w)
  case Nil
  then show ?case by simp
next
  case (Cons f fs)
  show ?case
  proof (cases "f \<in> files w")
    case False
    then show ?thesis by simp
  next
    case True
    obtain r where c': "call env (MergerAppend f) w = (r, w\<lparr>trace := trace w @ [MergerAppend f]\<rparr>)"
      using call_read_only [of env "MergerAppend f" w] ro by blast
    show ?thesis
    proof (cases r)
      case (Some e)
      then show ?thesis using True c' by simp
    next
      case None
      have "\<not> set fs \<subseteq> files (w\<lparr>trace := trace w @ [MergerAppend f]\<rparr>)"
        using Cons.prems True by simp
      then show ?thesis using Cons.IH True c' None by simp
    qed
  qed
qed

lemma merge_loop_first_missing:
  assumes ok: "\<forall>f fs. external env (MergerAppend f) fs = (None, fs)"
    and first: "find (\<lambda>f. f \<notin> files w) inputs = Some f"
  shows "fst (merge_loop env inputs w) = Some (FileNotFoundError (''File not found: '' @ f))"
  using first
proof (induction inputs arbitrary: w)
  case Nil
  then show ?case by simp
next
  case (Cons g gs)
  show ?case
  proof (cases "g \<in> files w")
    case False
    then show ?thesis using Cons.prems by simp
  next
    case True
    have c: "call env (MergerAppend g) w = (None, w\<lparr>trace := trace w @ [MergerAppend g]\<rparr>)"
      using ok by (simp add: call_def)
    have "find (\<lambda>f. f \<notin> files (w\<lparr>trace := trace w @ [MergerAppend g]\<rparr>)) gs = Some f"
      using Cons.prems True by simp
    then show ?thesis using Cons.IH True c by simp
  qed
qed

text \<open>
  A list that is too short, or that names a missing file, makes \<open>merge_pdfs\<close> raise before
  the output is written; with at least 2 paths and nothing else raising, the error names the
  first missing file.
\<close>

lemma merge_pdfs_missing_path:
  assumes ro: "\<forall>f fs. snd (external env (MergerAppend f) fs) = fs"
  shows "(length inputs < 2 \<or> \<not> set inputs \<subseteq> files w \<longrightarrow>
            fst (merge_pdfs env inputs out w) \<noteq> None
          \<and> writes (new_events w (snd (merge_pdfs env inputs out w))) = [])
       \<and> (import_PdfMerger env \<and> 2 \<le> length inputs
            \<and> (\<forall>g fs. fst (external env (MergerAppend g) fs) = None)
            \<and> (\<forall>fs. fst (external env MergerClose fs) = None)
            \<and> find (\<lambda>f. f \<notin> files w) inputs = Some f \<longrightarrow>
          fst (merge_pdfs env inputs out w) = Some (FileNotFoundError (''File not found: '' @ f)))"
proof (rule conjI; rule impI)
  assume bad: "length inputs < 2 \<or> \<not> set inputs \<subseteq> files w"
  show "fst (merge_pdfs env inputs out w) \<noteq> None
          \<and> writes (new_events w (snd (merge_pdfs env inputs out w))) = []"
  proof (cases "\<not> import_PdfMerger env \<or> length inputs < 2")
    case True
    then show ?thesis by (auto simp: merge_pdfs_def new_events_def)
  next
    case False
    then have miss: "\<not> set inputs \<subseteq> files w" using bad by auto
    obtain r w1 where l: "merge_loop env inputs w = (r, w1)"
      by (cases "merge_loop env inputs w") auto
    have "r \<noteq> None" using merge_loop_missing [OF ro miss] l by simp
    then obtain e where e: "r = Some e" by auto
    obtain evs where evs: "trace w1 = trace w @ evs" "writes evs = []"
      using merge_loop_frame [OF ro, of inputs w] l by auto
    obtain c fs where cl: "call env MergerClose w1 = (c, w1\<lparr>files := fs, trace := trace w1 @ [MergerClose]\<rparr>)"
      by (rule call_cases)
    show ?thesis
      using False l e evs cl
      by (cases c) (simp_all add: merge_pdfs_def new_events_def writes_append)
  qed
next
  assume h: "import_PdfMerger env \<and> 2 \<le> length inputs
            \<and> (\<forall>g fs. fst (external env (MergerAppend g) fs) = None)
            \<and> (\<forall>fs. fst (external env MergerClose fs) = None)
            \<and> find (\<lambda>f. f \<notin> files w) inputs = Some f"
  have ok: "\<forall>g fs. external env (MergerAppend g) fs = (None, fs)"
  proof (intro allI)
    fix g fs
    have "fst (external env (MergerAppend g) fs) = None" using h by blast
    moreover have "snd (external env (MergerAppend g) fs) = fs" using ro by blast
    ultimately show "external env (MergerAppend g) fs = (None, fs)"
      by (cases "external env (MergerAppend g) fs") simp
  qed
  have first: "find (\<lambda>f. f \<notin> files w) inputs = Some f" using h by blast
  obtain r w1 where l: "merge_loop env inputs w = (r, w1)"
    by (cases "merge_loop env inputs w") auto
  have r: "r = Some (FileNotFoundError (''File not found: '' @ f))"
    using merge_loop_first_missing [OF ok first] l by simp
  have "fst (external env MergerClose (files w1)) = None" using h by blast
  then have cl: "fst (call env MergerClose w1) = None"
    by (cases "external env MergerClose (files w1)") (simp add: call_def)
  show "fst (merge_pdfs env inputs out w) = Some (FileNotFoundError (''File not found: '' @ f))"
    using h l r cl
    by (cases "call env MergerClose w1") (simp add: merge_pdfs_def)
qed

section \<open>The table is never written\<close>

lemma converters_calls: "converters (snd (calls env evs w)) = converters w"
proof (induction evs arbitrary: w)
  case Nil
  show ?case by simp
next
  case (Cons ev evs)
  obtain r fs where c: "call env ev w = (r, w\<lparr>files := fs, trace := trace w @ [ev]\<rparr>)"
    by (rule call_cases)
  show ?case
    using c Cons.IH [of "w\<lparr>files := fs, trace := trace w @ [ev]\<rparr>"]
    by (cases r) simp_all
qed

lemma converters_py_print: "converters (py_print s w) = converters w"
  by (simp add: py_print_def)

lemma converters_safe_remove: "converters (safe_remove env p w) = converters w"
  by (simp add: safe_remove_def os_remove_def)

lemma converters_fold_safe_remove: "converters (fold (safe_remove env) ps w) = converters w"
  by (induction ps arbitrary: w) (simp_all add: converters_safe_remove)

lemma converters_write_out: "converters (snd (write_out env out w)) = converters w"
  by (cases out) (simp_all add: write_out_def converters_call)

lemma converters_dispatch: "converters (snd (dispatch env src dst inp out w)) = converters w"
  by (simp add: dispatch_def Let_def converters_call split: option.splits)

lemma converters_chain_steps:
  "converters (snd (snd (chain_steps env inp out n i chain cur temps w))) = converters w"
proof (induction chain arbitrary: i cur temps w)
  case Nil
  show ?case by simp
next
  case (Cons step chain)
  obtain from_fmt to_fmt where step: "step = (from_fmt, to_fmt)" by (cases step)
  have d: "converters (snd (dispatch env from_fmt to_fmt cur p w)) = converters w" for p
    by (rule converters_dispatch)
  show ?case
  proof (cases "i = n - 1")
    case True
    obtain r w' where c: "dispatch env from_fmt to_fmt cur out w = (r, w')"
      by (cases "dispatch env from_fmt to_fmt cur out w") auto
    have "converters w' = converters w" using d [of out] c by simp
    then show ?thesis
      using True c step Cons.IH [of "i + 1" out temps w'] by (cases r) simp_all
  next
    case False
    show ?thesis
    proof (cases "temp_path inp i to_fmt")
      case (Inl e)
      then show ?thesis using False step by simp
    next
      case (Inr temp)
      obtain r w' where c: "dispatch env from_fmt to_fmt cur temp w = (r, w')"
        by (cases "dispatch env from_fmt to_fmt cur temp w") auto
      have "converters w' = converters w" using d [of temp] c by simp
      then show ?thesis
        using False Inr c step Cons.IH [of "i + 1" temp "temps @ [temp]" w'] by (cases r) simp_all
    qed
  qed
qed

lemma converters_convert_file: "converters (snd (convert_file env inp out w)) = converters w"
proof -
  let ?src = "path_ext inp" and ?dst = "path_ext out"
  show ?thesis
  proof (cases "converters w (jpg_of ?src, jpg_of ?dst)")
    case (Some h)
    obtain r fs where c: "call env (Invoke h inp out) w
        = (r, w\<lparr>files := fs, trace := trace w @ [Invoke h inp out]\<rparr>)"
      by (rule call_cases)
    show ?thesis
      unfolding convert_file_direct [OF Some] c
      by (cases r) (simp_all add: converters_py_print)
  next
    case None
    show ?thesis
    proof (cases "find_chain (converters w) (jpg_of ?src) (jpg_of ?dst)")
      case nochain: None
      show ?thesis
        unfolding convert_file_unsupported [OF None nochain]
        by (simp add: converters_py_print)
    next
      case (Some chain)
      obtain mid h1 h2 where chain: "chain = [(jpg_of ?src, mid), (mid, jpg_of ?dst)]"
        using find_chain_SomeD [OF Some jpg_of_not_jpeg jpg_of_not_jpeg] by blast
      obtain r temps w1 where res:
        "chain_steps env inp out 2 0 [(jpg_of ?src, mid), (mid, jpg_of ?dst)] inp [] w = (r, temps, w1)"
        by (cases "chain_steps env inp out 2 0 [(jpg_of ?src, mid), (mid, jpg_of ?dst)] inp [] w") auto
      have "converters w1 = converters w"
        using converters_chain_steps [of env inp out 2 0 "[(jpg_of ?src, mid), (mid, jpg_of ?dst)]" inp "[]" w]
          res by simp
      then show ?thesis
        unfolding convert_file_chain [OF None Some [unfolded chain] res]
        by (cases r) (simp_all add: converters_py_print converters_fold_safe_remove)
    qed
  qed
qed

lemma converters_merge_loop: "converters (snd (merge_loop env inputs w)) = converters w"
proof (induction inputs arbitrary: w)
  case Nil
  show ?case by simp
next
  case (Cons f fs)
  obtain r fs' where c: "call env (MergerAppend f) w
      = (r, w\<lparr>files := fs', trace := trace w @ [MergerAppend f]\<rparr>)"
    by (rule call_cases)
  show ?case
    using c Cons.IH [of "w\<lparr>files := fs', trace := trace w @ [MergerAppend f]\<rparr>"]
    by (cases r) simp_all
qed

lemma converters_merge_pdfs: "converters (snd (merge_pdfs env inputs out w)) = converters w"
proof (cases "\<not> import_PdfMerger env \<or> length inputs < 2")
  case True
  then show ?thesis by (auto simp: merge_pdfs_def)
next
  case False
  obtain r w1 where l: "merge_loop env inputs w = (r, w1)"
    by (cases "merge_loop env inputs w") auto
  have w1: "converters w1 = converters w"
    using converters_merge_loop [of env inputs w] l by simp
  obtain r' w1' where m: "(case merge_loop env inputs w of
                  (Some e, w') \<Rightarrow> (Some e, w')
                | (None, w') \<Rightarrow> call env (MergerWrite out) w') = (r', w1')"
    by (cases "(case merge_loop env inputs w of
                  (Some e, w') \<Rightarrow> (Some e, w')
                | (None, w') \<Rightarrow> call env (MergerWrite out) w')") auto
  have w1': "converters w1' = converters w"
    using m l w1 converters_call [of env "MergerWrite out" w1] by (cases r) auto
  obtain c w2 where cl: "call env MergerClose w1' = (c, w2)"
    by (cases "call env MergerClose w1'") auto
  have "converters w2 = converters w"
    using cl w1' converters_call [of env MergerClose w1'] by simp
  then show ?thesis
    using False m cl by (cases c) (simp_all add: merge_pdfs_def)
qed

lemma converters_after_calls:
  assumes "\<And>w'. converters (snd (K w')) = converters w'"
  shows "converters (snd (case calls env evs w of
                            (Some e, w') \<Rightarrow> (Some e, w')
                          | (None, w') \<Rightarrow> K w')) = converters w"
proof -
  obtain r w' where c: "calls env evs w = (r, w')" by (cases "calls env evs w") auto
  have "converters w' = converters w"
    using converters_calls [of env evs w] c by simp
  then show ?thesis
    using c assms [of w'] by (cases r) simp_all
qed

lemma converters_split_pdf: "converters (snd (split_pdf env inp outdir w)) = converters w"
proof (cases inp)
  case None
  then show ?thesis by (simp add: split_pdf_def)
next
  case (Some f)
  show ?thesis
    unfolding split_pdf_def Some
    by (simp add: converters_after_calls converters_py_print del: calls.simps)
qed

lemma converters_compress_pdf: "converters (snd (compress_pdf env inp out w)) = converters w"
proof (cases inp)
  case None
  then show ?thesis by (simp add: compress_pdf_def)
next
  case (Some f)
  show ?thesis
    unfolding compress_pdf_def Some
    by (simp add: converters_after_calls converters_write_out del: calls.simps)
qed

lemma converters_rotate_pdf: "converters (snd (rotate_pdf env inp out deg w)) = converters w"
proof (cases inp)
  case None
  then show ?thesis by (simp add: rotate_pdf_def)
next
  case (Some f)
  show ?thesis
    unfolding rotate_pdf_def Some
    by (simp add: Let_def converters_after_calls converters_write_out del: calls.simps)
qed

lemma converters_watermark_pdf: "converters (snd (watermark_pdf env inp out text w)) = converters w"
proof (cases inp)
  case None
  then show ?thesis by (simp add: watermark_pdf_def)
next
  case (Some f)
  show ?thesis
    unfolding watermark_pdf_def Some
    by (simp add: converters_after_calls converters_write_out del: calls.simps)
qed

lemma converters_then_return:
  "converters (snd (then_return rw)) = converters (snd rw)"
  by (cases rw) (simp add: then_return_def split: option.splits)

lemma converters_cli_mode: "converters (snd (cli_mode env argv args w)) = converters w"
proof -
  have merge: "converters (snd (case merge_pdfs env inputs outp w of
              (Some e, w') \<Rightarrow> (Uncaught e, w')
            | (None, w') \<Rightarrow> (Returned, py_print s w'))) = converters w" for inputs outp s
  proof -
    obtain r w' where m: "merge_pdfs env inputs outp w = (r, w')"
      by (cases "merge_pdfs env inputs outp w") auto
    have "converters w' = converters w"
      using converters_merge_pdfs [of env inputs outp w] m by simp
    then show ?thesis using m by (cases r) (simp_all add: converters_py_print)
  qed
  have conv: "converters (snd (case convert_file env inp out w of
                (True, w') \<Rightarrow> (Returned, py_print s w')
              | (False, w') \<Rightarrow> (SysExit 1, w'))) = converters w" for inp out s
  proof -
    obtain b w' where c: "convert_file env inp out w = (b, w')"
      by (cases "convert_file env inp out w") auto
    have "converters w' = converters w"
      using converters_convert_file [of env inp out w] c by simp
    then show ?thesis using c by (cases b) (simp_all add: converters_py_print)
  qed
  show ?thesis
    unfolding cli_mode_def Let_def
    by (simp add: converters_then_return converters_call converters_split_pdf
          converters_compress_pdf converters_rotate_pdf converters_watermark_pdf merge conv
          split: option.splits)
qed

lemma converters_perform: "converters (perform env op w) = converters w"
  by (cases op)
     (simp_all add: converters_convert_file converters_dispatch converters_merge_pdfs
        converters_split_pdf converters_compress_pdf converters_rotate_pdf
        converters_watermark_pdf converters_safe_remove converters_cli_mode converters_call)

lemma converters_fold_perform: "converters (fold (perform env) ops w) = converters w"
  by (induction ops arbitrary: w) (simp_all add: converters_perform)

section \<open>The claims\<close>

text \<open>
  C1. For every source and destination format, \<open>find_chain\<close> over the \<open>CONVERTERS\<close> table
  returns the chain through the first of pdf, png, jpg (in this order) for which both
  (source, intermediate) and (intermediate, destination) are keys of the table, and no chain
  when there is no such intermediate; a chain it returns has exactly two steps, whatever the
  table. The chain names the formats with jpeg written jpg. This holds for all formats, so in
  particular for those whose normalised pair has no direct handler, which are the ones
  \<open>convert_file\<close> passes to it. The two extra disjuncts of the source (jpeg to jpg, jpg to
  jpeg) never decide the result for this table.
\<close>

theorem find_chain_first_intermediate:
  "find_chain CONVERTERS src dst =
     (case find (\<lambda>mid. (src, mid) \<in> dom CONVERTERS \<and> (mid, dst) \<in> dom CONVERTERS) [''pdf'', ''png'', ''jpg''] of
        None \<Rightarrow> None
      | Some mid \<Rightarrow> Some [(jpg_of src, mid), (mid, jpg_of dst)])
   \<and> (case find_chain C src dst of None \<Rightarrow> True | Some chain \<Rightarrow> length chain = 2)"
proof (rule conjI)
  show "find_chain CONVERTERS src dst =
     (case find (\<lambda>mid. (src, mid) \<in> dom CONVERTERS \<and> (mid, dst) \<in> dom CONVERTERS) [''pdf'', ''png'', ''jpg''] of
        None \<Rightarrow> None
      | Some mid \<Rightarrow> Some [(jpg_of src, mid), (mid, jpg_of dst)])"
  proof (cases "src = ''jpeg''")
    case True
    then show ?thesis
      using find_chain_jpeg_src [of dst] by (simp add: jpg_of_def)
  next
    case src: False
    show ?thesis
    proof (cases "dst = ''jpeg''")
      case True
      then show ?thesis
        using find_chain_jpeg_dst [OF src] src by (simp add: jpg_of_def)
    next
      case False
      then show ?thesis
        using find_chain_no_jpeg [OF src False, of CONVERTERS] src by (simp add: jpg_of_def)
    qed
  qed
next
  show "case find_chain C src dst of None \<Rightarrow> True | Some chain \<Rightarrow> length chain = 2"
    by (rule find_chain_length)
qed

text \<open>
  C2, as the code has it. When \<open>convert_file\<close> finds no direct handler and \<open>find_chain\<close>
  returns a chain, exactly one temporary path is registered. It is
  \<open>temp_path inp 0 mid\<close>, a function of the input path, the step index 0 and the
  intermediate format. It is the output of the first handler and the input of the second.
  On every exit path (both steps succeed, the first raises, the second raises)
  \<open>safe_remove\<close> is applied to it before \<open>convert_file\<close> returns, so at return the file
  does not exist unless the operating system refused the removal: \<open>safe_remove\<close> catches
  the \<^verbatim>\<open>OSError\<close> of \<^verbatim>\<open>os.remove\<close> and drops it. What a handler writes besides its output
  argument is the handler's business and not part of the statement.
\<close>

theorem chain_temp_file_cleanup:
  assumes tbl: "converters w = CONVERTERS"
    and nodirect: "CONVERTERS (jpg_of (path_ext inp), jpg_of (path_ext out)) = None"
    and found: "find_chain CONVERTERS (jpg_of (path_ext inp)) (jpg_of (path_ext out)) = Some chain"
  shows "\<exists>mid temp h1 h2.
           chain = [(jpg_of (path_ext inp), mid), (mid, jpg_of (path_ext out))]
         \<and> CONVERTERS (jpg_of (path_ext inp), mid) = Some h1
         \<and> CONVERTERS (mid, jpg_of (path_ext out)) = Some h2
         \<and> temp_path inp 0 mid = Inr temp
         \<and> (case chain_steps env inp out 2 0 chain inp [] w of
               (r, temp_files, w1) \<Rightarrow>
                 temp_files = [temp]
               \<and> (trace w1 = trace w @ [Invoke h1 inp temp]
                  \<or> trace w1 = trace w @ [Invoke h1 inp temp, Invoke h2 temp out])
               \<and> convert_file env inp out w =
                   (case r of
                      None \<Rightarrow> (True, safe_remove env temp w1)
                    | Some e \<Rightarrow> (False, py_print (error_prefix @ message e) (safe_remove env temp w1))))
         \<and> (remove_denied env temp \<or> temp \<notin> files (snd (convert_file env inp out w)))"
proof -
  let ?a = "jpg_of (path_ext inp)" and ?b = "jpg_of (path_ext out)"
  obtain mid h1 h2 where mid: "mid \<in> set intermediates"
    and chain: "chain = [(?a, mid), (mid, ?b)]"
    and k1: "CONVERTERS (?a, mid) = Some h1" and k2: "CONVERTERS (mid, ?b) = Some h2"
    using find_chain_SomeD [OF found jpg_of_not_jpeg jpg_of_not_jpeg] by blast
  have "?a \<noteq> []" using k1 by (rule CONVERTERS_src_nonempty)
  then have "path_ext inp \<noteq> []" by (auto simp: jpg_of_def split: if_splits)
  then have "path_name inp \<noteq> []" by (rule path_name_nonempty)
  with mid obtain temp where temp: "temp_path inp 0 mid = Inr temp"
    using temp_path_ok by blast
  have steps: "chain_steps env inp out 2 0 chain inp [] w =
           (case call env (Invoke h1 inp temp) w of
              (Some e, w') \<Rightarrow> (Some e, [temp], w')
            | (None, w') \<Rightarrow>
                (case call env (Invoke h2 temp out) w' of
                   (Some e, w'') \<Rightarrow> (Some e, [temp], w'')
                 | (None, w'') \<Rightarrow> (None, [temp], w'')))"
    unfolding chain
    using k1 k2 temp
    by (intro chain_steps_two normal_jpg_of_path_ext normal_intermediate mid) (simp_all add: tbl)
  obtain r temp_files w1 where res: "chain_steps env inp out 2 0 chain inp [] w = (r, temp_files, w1)"
    by (cases "chain_steps env inp out 2 0 chain inp [] w") auto
  have tf: "temp_files = [temp]"
    using res steps by (auto split: prod.splits option.splits)
  have tr: "trace w1 = trace w @ [Invoke h1 inp temp]
          \<or> trace w1 = trace w @ [Invoke h1 inp temp, Invoke h2 temp out]"
    using res steps trace_call [of env "Invoke h1 inp temp" w]
      trace_call [of env "Invoke h2 temp out" "snd (call env (Invoke h1 inp temp) w)"]
    by (auto split: prod.splits option.splits)
  have cf: "convert_file env inp out w =
              (case r of
                 None \<Rightarrow> (True, safe_remove env temp w1)
               | Some e \<Rightarrow> (False, py_print (error_prefix @ message e) (safe_remove env temp w1)))"
  proof -
    have n: "converters w (?a, ?b) = None"
      using nodirect tbl by simp
    have f: "find_chain (converters w) ?a ?b = Some [(?a, mid), (mid, ?b)]"
      using found tbl chain by simp
    have r': "chain_steps env inp out 2 0 [(?a, mid), (mid, ?b)] inp [] w = (r, [temp], w1)"
      using res unfolding tf chain .
    show ?thesis
      using convert_file_chain [OF n f r'] by (cases r) simp_all
  qed
  have gone: "remove_denied env temp \<or> temp \<notin> files (snd (convert_file env inp out w))"
    using safe_remove_gone [of env temp w1]
    by (cases r) (auto simp: cf files_py_print)
  show ?thesis
    using chain k1 k2 temp res tf tr cf gone by (intro exI [of _ mid] exI [of _ temp] exI [of _ h1] exI [of _ h2]) simp
qed

text \<open>
  C2 at report.docx to report.jpg, through pdf: the temporary path is report.tmp_0.pdf, and it
  is gone at return both when the two steps succeed and when the second step raises.
\<close>

theorem chain_temp_file_cleanup_witness:
  "converters (initial_world {''report.docx''}) = CONVERTERS
   \<and> CONVERTERS (''docx'', ''jpg'') = None
   \<and> find_chain CONVERTERS ''docx'' ''jpg'' = Some [(''docx'', ''pdf''), (''pdf'', ''jpg'')]
   \<and> temp_path ''report.docx'' 0 ''pdf'' = Inr ''report.tmp_0.pdf''
   \<and> fst (convert_file obliging_env ''report.docx'' ''report.jpg'' (initial_world {''report.docx''}))
   \<and> ''report.tmp_0.pdf'' \<notin> files (snd (convert_file obliging_env ''report.docx'' ''report.jpg''
                                         (initial_world {''report.docx''})))
   \<and> \<not> fst (convert_file second_hop_fails_env ''report.docx'' ''report.jpg'' (initial_world {''report.docx''}))
   \<and> ''report.tmp_0.pdf'' \<notin> files (snd (convert_file second_hop_fails_env ''report.docx'' ''report.jpg''
                                         (initial_world {''report.docx''})))
   \<and> trace (snd (convert_file second_hop_fails_env ''report.docx'' ''report.jpg''
                    (initial_world {''report.docx''})))
       = [Invoke convert_docx_to_pdf ''report.docx'' ''report.tmp_0.pdf'',
          Invoke lambda_pdf_jpg ''report.tmp_0.pdf'' ''report.jpg'',
          OsRemove ''report.tmp_0.pdf'',
          Stdout (error_prefix @ ''second hop failed'')]"
proof -
  let ?w = "initial_world {''report.docx''}"
  have tbl: "converters ?w = CONVERTERS" by (simp add: initial_world_def)
  have a: "jpg_of (path_ext ''report.docx'') = ''docx''"
    by (simp add: path_ext_report_docx jpg_of_def)
  have b: "jpg_of (path_ext ''report.jpg'') = ''jpg''"
    by (simp add: path_ext_report_jpg jpg_of_def)
  have nodirect: "CONVERTERS (jpg_of (path_ext ''report.docx''), jpg_of (path_ext ''report.jpg'')) = None"
    unfolding a b by (rule no_direct_docx_jpg)
  have found: "find_chain CONVERTERS (jpg_of (path_ext ''report.docx'')) (jpg_of (path_ext ''report.jpg''))
                 = Some [(''docx'', ''pdf''), (''pdf'', ''jpg'')]"
    unfolding a b by (rule chain_docx_jpg)
  have gone: "''report.tmp_0.pdf'' \<notin> files (snd (convert_file env ''report.docx'' ''report.jpg'' ?w))"
    if allowed: "\<not> remove_denied env ''report.tmp_0.pdf''" for env
  proof -
    obtain mid temp where c: "[(''docx'', ''pdf''), (''pdf'', ''jpg'')] = [(''docx'', mid), (mid, ''jpg'')]"
      and t: "temp_path ''report.docx'' 0 mid = Inr temp"
      and g: "remove_denied env temp
              \<or> temp \<notin> files (snd (convert_file env ''report.docx'' ''report.jpg'' ?w))"
      using chain_temp_file_cleanup [OF tbl nodirect found, of env] unfolding a b by blast
    from c have "mid = ''pdf''" by simp
    with t have "temp = ''report.tmp_0.pdf''" by (simp add: temp_path_report)
    with g allowed show ?thesis by simp
  qed
  have g1: "''report.tmp_0.pdf'' \<notin> files (snd (convert_file obliging_env ''report.docx'' ''report.jpg'' ?w))"
    by (rule gone) (simp add: obliging_env_def)
  have g2: "''report.tmp_0.pdf'' \<notin> files (snd (convert_file second_hop_fails_env ''report.docx'' ''report.jpg'' ?w))"
    by (rule gone) (simp add: second_hop_fails_env_def obliging_env_def)
  have ok: "fst (convert_file obliging_env ''report.docx'' ''report.jpg'' ?w)"
    by code_simp
  have ko: "\<not> fst (convert_file second_hop_fails_env ''report.docx'' ''report.jpg'' ?w)"
    by code_simp
  have tr: "trace (snd (convert_file second_hop_fails_env ''report.docx'' ''report.jpg'' ?w))
       = [Invoke convert_docx_to_pdf ''report.docx'' ''report.tmp_0.pdf'',
          Invoke lambda_pdf_jpg ''report.tmp_0.pdf'' ''report.jpg'',
          OsRemove ''report.tmp_0.pdf'',
          Stdout (error_prefix @ ''second hop failed'')]"
    by code_simp
  show ?thesis
    using tbl no_direct_docx_jpg chain_docx_jpg temp_path_report g1 g2 ok ko tr by simp
qed

text \<open>
  C2 as stated, that the temporary file is deleted before \<open>convert_file\<close> returns on every
  exit path, fails where \<^verbatim>\<open>os.remove\<close> raises: the conversion of report.docx to report.jpg
  succeeds and report.tmp_0.pdf is still there.
\<close>

theorem temp_file_survives_refused_removal:
  "CONVERTERS (''docx'', ''jpg'') = None
   \<and> find_chain CONVERTERS ''docx'' ''jpg'' = Some [(''docx'', ''pdf''), (''pdf'', ''jpg'')]
   \<and> fst (convert_file refusing_env ''report.docx'' ''report.jpg'' (initial_world {''report.docx''}))
   \<and> ''report.tmp_0.pdf'' \<in> files (snd (convert_file refusing_env ''report.docx'' ''report.jpg''
                                          (initial_world {''report.docx''})))"
  by code_simp

text \<open>
  C3. When the normalised (source, destination) key of the two paths is in the table,
  \<open>convert_file\<close> makes exactly one external call: the handler registered for that key,
  with the original input and output paths. The files afterwards are the ones that handler
  left, the only further event is the error line when the handler raised, and no temporary
  path is formed. The keys (docx, pdf) and (pdf, docx) are registered, to
  \<open>convert_docx_to_pdf\<close> and \<open>convert_pdf_to_docx\<close>.
\<close>

theorem direct_handler_only:
  assumes "converters w (jpg_of (path_ext inp), jpg_of (path_ext out)) = Some h"
  shows "convert_file env inp out w =
           (case external env (Invoke h inp out) (files w) of
              (None, fs) \<Rightarrow> (True, w\<lparr>files := fs, trace := trace w @ [Invoke h inp out]\<rparr>)
            | (Some e, fs) \<Rightarrow>
                (False, w\<lparr>files := fs,
                          trace := trace w @ [Invoke h inp out, Stdout (error_prefix @ message e)]\<rparr>))
         \<and> CONVERTERS (''docx'', ''pdf'') = Some convert_docx_to_pdf
         \<and> CONVERTERS (''pdf'', ''docx'') = Some convert_pdf_to_docx"
proof (intro conjI)
  show "convert_file env inp out w =
           (case external env (Invoke h inp out) (files w) of
              (None, fs) \<Rightarrow> (True, w\<lparr>files := fs, trace := trace w @ [Invoke h inp out]\<rparr>)
            | (Some e, fs) \<Rightarrow>
                (False, w\<lparr>files := fs,
                          trace := trace w @ [Invoke h inp out, Stdout (error_prefix @ message e)]\<rparr>))"
    unfolding convert_file_direct [OF assms] call_external
    by (simp add: py_print_def split: prod.splits option.splits)
  show "CONVERTERS (''docx'', ''pdf'') = Some convert_docx_to_pdf"
    by code_simp
  show "CONVERTERS (''pdf'', ''docx'') = Some convert_pdf_to_docx"
    by code_simp
qed

text \<open>C3 at report.docx to report.pdf and at slide.pdf to slide.docx.\<close>

theorem direct_handler_only_witness:
  "converters (initial_world {''report.docx''})
     (jpg_of (path_ext ''report.docx''), jpg_of (path_ext ''report.pdf'')) = Some convert_docx_to_pdf
   \<and> fst (convert_file obliging_env ''report.docx'' ''report.pdf'' (initial_world {''report.docx''}))
   \<and> trace (snd (convert_file obliging_env ''report.docx'' ''report.pdf'' (initial_world {''report.docx''})))
       = [Invoke convert_docx_to_pdf ''report.docx'' ''report.pdf'']
   \<and> files (snd (convert_file obliging_env ''report.docx'' ''report.pdf'' (initial_world {''report.docx''})))
       = {''report.docx'', ''report.pdf''}
   \<and> converters (initial_world {''slide.pdf''})
     (jpg_of (path_ext ''slide.pdf''), jpg_of (path_ext ''slide.docx'')) = Some convert_pdf_to_docx
   \<and> trace (snd (convert_file obliging_env ''slide.pdf'' ''slide.docx'' (initial_world {''slide.pdf''})))
       = [Invoke convert_pdf_to_docx ''slide.pdf'' ''slide.docx'']
   \<and> files (snd (convert_file obliging_env ''slide.pdf'' ''slide.docx'' (initial_world {''slide.pdf''})))
       = {''slide.pdf'', ''slide.docx''}"
proof -
  have k: "converters (initial_world {''report.docx''})
             (jpg_of (path_ext ''report.docx''), jpg_of (path_ext ''report.pdf'')) = Some convert_docx_to_pdf"
    by code_simp
  have k': "converters (initial_world {''slide.pdf''})
             (jpg_of (path_ext ''slide.pdf''), jpg_of (path_ext ''slide.docx'')) = Some convert_pdf_to_docx"
    by code_simp
  show ?thesis
    using k k' direct_handler_only [OF k, of obliging_env] direct_handler_only [OF k', of obliging_env]
    by (auto simp: obliging_env_def initial_world_def)
qed

text \<open>
  C4. When the normalised key is not in the table and \<open>find_chain\<close> finds no chain,
  \<open>convert_file\<close> returns \<open>False\<close>; the world is the one it started in, except for one
  printed line, the error "Unsupported conversion: src -> dst" with the two lower-cased
  extensions. No handler is invoked and no file is created or removed.
\<close>

theorem unsupported_conversion_fails:
  assumes "converters w (jpg_of (path_ext inp), jpg_of (path_ext out)) = None"
    and "find_chain (converters w) (jpg_of (path_ext inp)) (jpg_of (path_ext out)) = None"
  shows "convert_file env inp out w =
           (False, w\<lparr>trace := trace w @
                      [Stdout (error_prefix @ ''Unsupported conversion: '' @ path_ext inp @ '' -> ''
                               @ path_ext out)]\<rparr>)"
  using convert_file_unsupported [OF assms] by (simp add: py_print_def)

text \<open>C4 at photo.heic to photo.png: the line reads "Unsupported conversion: heic -> png".\<close>

theorem unsupported_conversion_fails_witness:
  "converters (initial_world {''photo.heic''})
     (jpg_of (path_ext ''photo.heic''), jpg_of (path_ext ''photo.png'')) = None
   \<and> find_chain (converters (initial_world {''photo.heic''}))
        (jpg_of (path_ext ''photo.heic'')) (jpg_of (path_ext ''photo.png'')) = None
   \<and> convert_file obliging_env ''photo.heic'' ''photo.png'' (initial_world {''photo.heic''})
       = (False, (initial_world {''photo.heic''})
                   \<lparr>trace := [Stdout (error_prefix @ ''Unsupported conversion: heic -> png'')]\<rparr>)"
proof -
  let ?w = "initial_world {''photo.heic''}"
  have a: "converters ?w (jpg_of (path_ext ''photo.heic''), jpg_of (path_ext ''photo.png'')) = None"
    by code_simp
  have b: "find_chain (converters ?w) (jpg_of (path_ext ''photo.heic'')) (jpg_of (path_ext ''photo.png'')) = None"
    by code_simp
  have e1: "path_ext ''photo.heic'' = ''heic''" by code_simp
  have e2: "path_ext ''photo.png'' = ''png''" by code_simp
  show ?thesis
    using a b unsupported_conversion_fails [OF a b, of obliging_env]
    by (simp add: e1 e2 initial_world_def)
qed



text \<open>
  C6 asks that every error of a conversion or PDF operation be caught at the call boundary
  and reported. \<open>convert_file\<close> does so, and returns a truth value. In direct-argument mode
  the operations selected by a flag are called with nothing around them, so an exception they
  raise leaves \<open>cli_mode\<close> uncaught: compressing a file that does not exist, and merging with
  a single input, end in \<open>Uncaught\<close>, with nothing printed by the program.
\<close>

theorem cli_flag_operation_error_uncaught:
  "fst (cli_mode obliging_env [''convctl'', ''--compress'', ''missing.pdf'', ''out.pdf'']
          (no_flags\<lparr>arg_compress := True, arg_input := Some ''missing.pdf'', arg_output := Some ''out.pdf''\<rparr>)
          (initial_world {}))
     = Uncaught (FileNotFoundError ''File not found: missing.pdf'')
   \<and> fst (cli_mode obliging_env [''convctl'', ''--merge'', ''a.pdf'', ''out.pdf'']
          (no_flags\<lparr>arg_merge := True, arg_input := Some ''a.pdf'', arg_output := Some ''out.pdf''\<rparr>)
          (initial_world {''a.pdf''}))
     = Uncaught (ValueError ''Need at least 2 files to merge'')
   \<and> trace (snd (cli_mode obliging_env [''convctl'', ''--compress'', ''missing.pdf'', ''out.pdf'']
          (no_flags\<lparr>arg_compress := True, arg_input := Some ''missing.pdf'', arg_output := Some ''out.pdf''\<rparr>)
          (initial_world {}))) = []"
  by code_simp

text \<open>C6 at the same command lines: the process ends with the interpreter's status 1.\<close>

theorem cli_flag_operation_error_uncaught_witness:
  "exit_code (fst (cli_mode obliging_env [''convctl'', ''--compress'', ''missing.pdf'', ''out.pdf'']
          (no_flags\<lparr>arg_compress := True, arg_input := Some ''missing.pdf'', arg_output := Some ''out.pdf''\<rparr>)
          (initial_world {}))) = 1
   \<and> exit_code (fst (cli_mode obliging_env [''convctl'', ''--merge'', ''a.pdf'', ''out.pdf'']
          (no_flags\<lparr>arg_merge := True, arg_input := Some ''a.pdf'', arg_output := Some ''out.pdf''\<rparr>)
          (initial_world {''a.pdf''}))) = 1"
  using cli_flag_operation_error_uncaught by simp

text \<open>
  C7. In direct-argument mode with an input and an output path and no operation flag in
  effect, the exit code is 0 when \<open>convert_file\<close> succeeds and 1 when it fails.
\<close>

theorem cli_exit_code:
  assumes "\<not> arg_doctor args" and "\<not> arg_merge args" and "\<not> arg_split args"
    and "\<not> arg_compress args" and "\<not> truthy_int (arg_rotate args)"
    and "\<not> truthy_str (arg_watermark args)"
    and "arg_input args = Some inp" and "inp \<noteq> []"
    and "arg_output args = Some out" and "out \<noteq> []"
  shows "exit_code (fst (cli_mode env argv args w)) = (if fst (convert_file env inp out w) then 0 else 1)"
  using assms
  by (cases "convert_file env inp out w") (simp add: cli_mode_def truthy_str_def)

text \<open>C7 at report.docx to report.pdf, with a handler that succeeds and with one that raises.\<close>

theorem cli_exit_code_witness:
  "exit_code (fst (cli_mode obliging_env [''convctl'', ''report.docx'', ''report.pdf'']
                     (no_flags\<lparr>arg_input := Some ''report.docx'', arg_output := Some ''report.pdf''\<rparr>)
                     (initial_world {''report.docx''}))) = 0
   \<and> exit_code (fst (cli_mode failing_env [''convctl'', ''report.docx'', ''report.pdf'']
                     (no_flags\<lparr>arg_input := Some ''report.docx'', arg_output := Some ''report.pdf''\<rparr>)
                     (initial_world {''report.docx''}))) = 1"
proof -
  let ?args = "no_flags\<lparr>arg_input := Some ''report.docx'', arg_output := Some ''report.pdf''\<rparr>"
  have ok: "fst (convert_file obliging_env ''report.docx'' ''report.pdf'' (initial_world {''report.docx''}))"
    by code_simp
  have ko: "\<not> fst (convert_file failing_env ''report.docx'' ''report.pdf'' (initial_world {''report.docx''}))"
    by code_simp
  have a: "exit_code (fst (cli_mode obliging_env [''convctl'', ''report.docx'', ''report.pdf''] ?args
                             (initial_world {''report.docx''}))) = 0"
    using ok cli_exit_code [of ?args "''report.docx''" "''report.pdf''" obliging_env
        "[''convctl'', ''report.docx'', ''report.pdf'']" "initial_world {''report.docx''}"]
    by (simp add: no_flags_def truthy_str_def truthy_int_def)
  have b: "exit_code (fst (cli_mode failing_env [''convctl'', ''report.docx'', ''report.pdf''] ?args
                             (initial_world {''report.docx''}))) = 1"
    using ko cli_exit_code [of ?args "''report.docx''" "''report.pdf''" failing_env
        "[''convctl'', ''report.docx'', ''report.pdf'']" "initial_world {''report.docx''}"]
    by (simp add: no_flags_def truthy_str_def truthy_int_def)
  from a b show ?thesis by simp
qed

text \<open>
  C8. The table is built at initialisation and no operation of the program writes it: each
  operation leaves the \<open>converters\<close> component of the world as it found it, so after any
  sequence of operations it is still \<open>CONVERTERS\<close>, and every lookup sees the same mapping.
\<close>

theorem converters_never_mutated:
  "converters (initial_world fs) = CONVERTERS
   \<and> converters (run_program env ops fs) = CONVERTERS
   \<and> converters (perform env op w) = converters w"
  by (simp add: run_program_def converters_fold_perform converters_perform initial_world_def)

text \<open>
  C9. For every integer, \<open>rotate_pdf\<close> normalises the angle to
  \<open>((deg mod 360) div 90) * 90\<close> with a non-negative remainder, which is one of 0, 90, 180,
  270; every \<^verbatim>\<open>page.rotate\<close> call of a run carries that angle, and a run that succeeds made
  the call once for each page.
\<close>

theorem rotate_angle_quarter_turn:
  "rotate_angle deg = ((deg mod 360) div 90) * 90
   \<and> rotate_angle deg \<in> {0, 90, 180, 270}
   \<and> set (rotations (new_events w (snd (rotate_pdf env inp out deg w)))) \<subseteq> {rotate_angle deg}
   \<and> (fst (rotate_pdf env (Some f) out deg w) = None \<longrightarrow>
        rotations (new_events w (snd (rotate_pdf env (Some f) out deg w)))
          = replicate (num_pages env f) (rotate_angle deg))"
proof (intro conjI impI)
  show "rotate_angle deg = ((deg mod 360) div 90) * 90" by (rule rotate_angle_eq)
  show "rotate_angle deg \<in> {0, 90, 180, 270}" by (rule rotate_angle_range)
next
  let ?a = "rotate_angle deg"
  show "set (rotations (new_events w (snd (rotate_pdf env inp out deg w)))) \<subseteq> {?a}"
  proof (cases "import_PdfReader env \<and> (\<exists>f. inp = Some f \<and> f \<in> files w)")
    case False
    then have "snd (rotate_pdf env inp out deg w) = w"
      by (auto simp: rotate_pdf_def split: option.splits)
    then show ?thesis by (simp add: new_events_def)
  next
    case True
    then obtain f where f: "inp = Some f" "f \<in> files w" and imp: "import_PdfReader env" by blast
    let ?evs = "PdfReader f # concat (map (\<lambda>k. [PageRotate k ?a, AddPage k]) [0..<num_pages env f])"
    obtain n where n: "trace (snd (calls env ?evs w)) = trace w @ take n ?evs"
      using calls_trace_prefix by blast
    have "set (rotations ?evs) \<subseteq> {?a}"
      by (auto simp: rotations_pages)
    then have sub: "set (rotations (take n ?evs)) \<subseteq> {?a}"
      using rotations_take [of n ?evs] by blast
    obtain r w' where c: "calls env ?evs w = (r, w')" by (cases "calls env ?evs w") auto
    have tw': "trace w' = trace w @ take n ?evs" using n c by simp
    show ?thesis
    proof (cases r)
      case (Some e)
      then have "snd (rotate_pdf env inp out deg w) = w'"
        using f imp c by (simp add: rotate_pdf_def Let_def)
      then show ?thesis using tw' sub by (simp add: new_events_def)
    next
      case None
      then have eq: "snd (rotate_pdf env inp out deg w) = snd (write_out env out w')"
        using f imp c by (simp add: rotate_pdf_def Let_def)
      from trace_write_out [of env out w'] show ?thesis
        unfolding eq using tw' sub
        by (auto simp: new_events_def rotations_append)
    qed
  qed
next
  let ?a = "rotate_angle deg"
  assume ok: "fst (rotate_pdf env (Some f) out deg w) = None"
  let ?evs = "PdfReader f # concat (map (\<lambda>k. [PageRotate k ?a, AddPage k]) [0..<num_pages env f])"
  obtain r w' where c: "calls env ?evs w = (r, w')" by (cases "calls env ?evs w") auto
  from ok have pre: "import_PdfReader env" "f \<in> files w"
    by (auto simp: rotate_pdf_def split: if_splits)
  from ok pre c have r: "r = None"
    by (cases r) (simp_all add: rotate_pdf_def Let_def)
  then have tw': "trace w' = trace w @ ?evs"
    using calls_trace_all [of env ?evs w] c by simp
  have eq: "snd (rotate_pdf env (Some f) out deg w) = snd (write_out env out w')"
    using pre c r by (simp add: rotate_pdf_def Let_def)
  from trace_write_out [of env out w']
  show "rotations (new_events w (snd (rotate_pdf env (Some f) out deg w)))
          = replicate (num_pages env f) ?a"
    unfolding eq using tw'
    by (auto simp: new_events_def rotations_append rotations_pages)
qed

text \<open>C9 at -90 degrees on a file of two pages: both pages are rotated by 270.\<close>

theorem rotate_angle_quarter_turn_witness:
  "fst (rotate_pdf obliging_env (Some ''a.pdf'') (Some ''b.pdf'') (- 90) (initial_world {''a.pdf''})) = None
   \<and> rotate_angle (- 90) = 270
   \<and> rotations (new_events (initial_world {''a.pdf''})
        (snd (rotate_pdf obliging_env (Some ''a.pdf'') (Some ''b.pdf'') (- 90) (initial_world {''a.pdf''}))))
      = [270, 270]"
proof -
  have ok: "fst (rotate_pdf obliging_env (Some ''a.pdf'') (Some ''b.pdf'') (- 90) (initial_world {''a.pdf''})) = None"
    by code_simp
  have a: "rotate_angle (- 90) = 270"
    using rotate_angle_quarter_turn [of "- 90" "initial_world {}" obliging_env None None "''a.pdf''"]
    by simp
  have n: "num_pages obliging_env ''a.pdf'' = 2" by (simp add: obliging_env_def)
  have "rotations (new_events (initial_world {''a.pdf''})
        (snd (rotate_pdf obliging_env (Some ''a.pdf'') (Some ''b.pdf'') (- 90) (initial_world {''a.pdf''}))))
      = replicate (num_pages obliging_env ''a.pdf'') (rotate_angle (- 90))"
    using ok rotate_angle_quarter_turn [of "- 90" "initial_world {''a.pdf''}" obliging_env
        "Some ''a.pdf''" "Some ''b.pdf''" "''a.pdf''"]
    by blast
  then show ?thesis using ok a n by (simp add: numeral_2_eq_2)
qed

text \<open>
  C10, as the code has it. Appending to the merger reads only (the assumption). Then for
  every list with fewer than 2 paths, and for every list with a path that does not exist,
  \<open>merge_pdfs\<close> raises an error and \<^verbatim>\<open>merger.write\<close> is never called. When the merger class
  does not import, the error is the "pypdf not installed" error, whatever the list. When it
  imports, a list with fewer than 2 paths gets the "Need at least 2 files to merge" error
  whether or not its paths exist, and a list of at least 2 paths gets the file-not-found
  error naming the first missing path, provided neither appending nor closing raises.
\<close>

theorem merge_pdfs_errors_before_write:
  assumes ro: "\<forall>f fs. snd (external env (MergerAppend f) fs) = fs"
  shows "(length inputs < 2 \<or> \<not> set inputs \<subseteq> files w \<longrightarrow>
            fst (merge_pdfs env inputs out w) \<noteq> None
          \<and> writes (new_events w (snd (merge_pdfs env inputs out w))) = [])
       \<and> (import_PdfMerger env \<and> 2 \<le> length inputs
            \<and> (\<forall>g fs. fst (external env (MergerAppend g) fs) = None)
            \<and> (\<forall>fs. fst (external env MergerClose fs) = None)
            \<and> find (\<lambda>f. f \<notin> files w) inputs = Some f \<longrightarrow>
          fst (merge_pdfs env inputs out w) = Some (FileNotFoundError (''File not found: '' @ f)))
       \<and> (import_PdfMerger env \<and> length inputs < 2 \<longrightarrow>
          fst (merge_pdfs env inputs out w) = Some (ValueError ''Need at least 2 files to merge''))
       \<and> (\<not> import_PdfMerger env \<longrightarrow>
          fst (merge_pdfs env inputs out w)
            = Some (RuntimeError ''pypdf not installed. Run: pip install pypdf''))"
proof -
  have short: "import_PdfMerger env \<and> length inputs < 2 \<longrightarrow>
          fst (merge_pdfs env inputs out w) = Some (ValueError ''Need at least 2 files to merge'')"
    by (simp add: merge_pdfs_def)
  have noimport: "\<not> import_PdfMerger env \<longrightarrow>
          fst (merge_pdfs env inputs out w)
            = Some (RuntimeError ''pypdf not installed. Run: pip install pypdf'')"
    by (simp add: merge_pdfs_def pypdf_missing_def)
  from merge_pdfs_missing_path [OF ro, of inputs w out f] short noimport
  show ?thesis by blast
qed

text \<open>
  C10 at the list a.pdf, missing.pdf, where only a.pdf exists, and at the list a.pdf alone,
  with the merger class importing and not importing.
\<close>

theorem merge_pdfs_errors_before_write_witness:
  "(\<forall>f fs. snd (external obliging_env (MergerAppend f) fs) = fs)
   \<and> find (\<lambda>f. f \<notin> files (initial_world {''a.pdf''})) [''a.pdf'', ''missing.pdf''] = Some ''missing.pdf''
   \<and> fst (merge_pdfs obliging_env [''a.pdf'', ''missing.pdf''] ''out.pdf'' (initial_world {''a.pdf''}))
       = Some (FileNotFoundError ''File not found: missing.pdf'')
   \<and> writes (new_events (initial_world {''a.pdf''})
        (snd (merge_pdfs obliging_env [''a.pdf'', ''missing.pdf''] ''out.pdf'' (initial_world {''a.pdf''})))) = []
   \<and> import_PdfMerger obliging_env
   \<and> fst (merge_pdfs obliging_env [''a.pdf''] ''out.pdf'' (initial_world {''a.pdf''}))
       = Some (ValueError ''Need at least 2 files to merge'')
   \<and> fst (merge_pdfs (obliging_env\<lparr>import_PdfMerger := False\<rparr>) [''a.pdf''] ''out.pdf''
            (initial_world {''a.pdf''}))
       = Some (RuntimeError ''pypdf not installed. Run: pip install pypdf'')"
proof -
  let ?w = "initial_world {''a.pdf''}"
  have ro: "\<forall>f fs. snd (external obliging_env (MergerAppend f) fs) = fs"
    by (simp add: obliging_env_def)
  have first: "find (\<lambda>f. f \<notin> files ?w) [''a.pdf'', ''missing.pdf''] = Some ''missing.pdf''"
    by (simp add: initial_world_def)
  have miss: "\<not> set [''a.pdf'', ''missing.pdf''] \<subseteq> files ?w"
    by (simp add: initial_world_def)
  note inst = merge_pdfs_errors_before_write [OF ro, of "[''a.pdf'', ''missing.pdf'']" ?w "''out.pdf''" "''missing.pdf''"]
  have "fst (merge_pdfs obliging_env [''a.pdf'', ''missing.pdf''] ''out.pdf'' ?w)
       = Some (FileNotFoundError ''File not found: missing.pdf'')"
    using inst first by (simp add: obliging_env_def)
  moreover have "writes (new_events ?w
        (snd (merge_pdfs obliging_env [''a.pdf'', ''missing.pdf''] ''out.pdf'' ?w))) = []"
    using inst miss by blast
  moreover have imp: "import_PdfMerger obliging_env"
    by (simp add: obliging_env_def)
  moreover have "fst (merge_pdfs obliging_env [''a.pdf''] ''out.pdf'' ?w)
       = Some (ValueError ''Need at least 2 files to merge'')"
    using merge_pdfs_errors_before_write [OF ro, of "[''a.pdf'']" ?w "''out.pdf''" "''a.pdf''"] imp
    by simp
  moreover have "fst (merge_pdfs (obliging_env\<lparr>import_PdfMerger := False\<rparr>) [''a.pdf''] ''out.pdf'' ?w)
       = Some (RuntimeError ''pypdf not installed. Run: pip install pypdf'')"
  proof -
    have ro': "\<forall>f fs. snd (external (obliging_env\<lparr>import_PdfMerger := False\<rparr>) (MergerAppend f) fs) = fs"
      by (simp add: obliging_env_def)
    show ?thesis
      using merge_pdfs_errors_before_write [OF ro', of "[''a.pdf'']" ?w "''out.pdf''" "''a.pdf''"]
      by simp
  qed
  ultimately show ?thesis using ro first by simp
qed

text \<open>
  C10 as stated, a file-not-found error whenever a listed path does not exist, fails for a
  list of one missing path: the length check comes first and raises \<^verbatim>\<open>ValueError\<close>.
\<close>

theorem merge_single_missing_path_value_error:
  "''missing.pdf'' \<notin> files (initial_world {})
   \<and> fst (merge_pdfs obliging_env [''missing.pdf''] ''out.pdf'' (initial_world {}))
       = Some (ValueError ''Need at least 2 files to merge'')"
  by code_simp

end
